theory Spec2Isabelle
  imports Complex_Main "HOL-Library.Sublist"
begin

section \<open>Strings\<close>

text \<open>
  A JavaScript string is modelled as a \<^typ>\<open>string\<close>: one \<^typ>\<open>char\<close> per code unit,
  restricted to code units below 256. The helpers below are the string methods the
  sources call.
\<close>

text \<open>\<^verbatim>\<open>String.prototype.toLowerCase\<close> on the letters A to Z; every other character is kept.\<close>

definition toLowerChar :: "char \<Rightarrow> char" where
  "toLowerChar c =
     (case map_of (zip ''ABCDEFGHIJKLMNOPQRSTUVWXYZ'' ''abcdefghijklmnopqrstuvwxyz'') c of
        Some l \<Rightarrow> l
      | None \<Rightarrow> c)"

definition toLowerCase :: "string \<Rightarrow> string" where
  "toLowerCase s = map toLowerChar s"

text \<open>\<^verbatim>\<open>s.startsWith(t)\<close>, \<^verbatim>\<open>s.includes(t)\<close> (here \<open>str_includes\<close>) and \<^verbatim>\<open>s.endsWith(t)\<close>.\<close>

fun startsWith :: "string \<Rightarrow> string \<Rightarrow> bool" where
  "startsWith s [] = True"
| "startsWith [] (d # t) = False"
| "startsWith (c # s) (d # t) = (c = d \<and> startsWith s t)"

fun str_includes :: "string \<Rightarrow> string \<Rightarrow> bool" where
  "str_includes [] t = (t = [])"
| "str_includes (c # s) t = (startsWith (c # s) t \<or> str_includes s t)"

definition endsWith :: "string \<Rightarrow> string \<Rightarrow> bool" where
  "endsWith s t = startsWith (rev s) (rev t)"

text \<open>
  The characters matched by \<^verbatim>\<open>\s\<close> and removed by \<^verbatim>\<open>trim\<close>, among the code units
  below 256: tab, line feed, vertical tab, form feed, carriage return, space and the
  no-break space.
\<close>

definition is_ws :: "char \<Rightarrow> bool" where
  "is_ws c = (c \<in> set [CHR 0x09, CHR 0x0A, CHR 0x0B, CHR 0x0C, CHR 0x0D, CHR 0x20, CHR 0xA0])"

definition trim :: "string \<Rightarrow> string" where
  "trim s = rev (dropWhile is_ws (rev (dropWhile is_ws s)))"

text \<open>\<^verbatim>\<open>Array.prototype.join\<close>.\<close>

fun join :: "string \<Rightarrow> string list \<Rightarrow> string" where
  "join sep [] = []"
| "join sep [x] = x"
| "join sep (x # y # ys) = x @ sep @ join sep (y # ys)"

section \<open>Errors\<close>

text \<open>
  An \<^verbatim>\<open>Error\<close> object with the properties the classifier reads. \<^verbatim>\<open>status\<close> and
  \<^verbatim>\<open>statusCode\<close> are numbers when present (\<open>None\<close> is \<^verbatim>\<open>undefined\<close>).
\<close>

record js_error =
  name :: string
  message :: string
  status :: "int option"
  statusCode :: "int option"

text \<open>
  A thrown value: an instance of \<^verbatim>\<open>Error\<close>, or anything else, of which only
  \<^verbatim>\<open>String(value)\<close> is ever used.
\<close>

datatype thrown = ErrorInstance js_error | NonError string

text \<open>\<^verbatim>\<open>new Error(msg)\<close>.\<close>

definition new_Error :: "string \<Rightarrow> js_error" where
  "new_Error msg = \<lparr>name = ''Error'', message = msg, status = None, statusCode = None\<rparr>"

text \<open>\<^verbatim>\<open>error instanceof Error ? error : new Error(String(error))\<close>.\<close>

fun toError :: "thrown \<Rightarrow> js_error" where
  "toError (ErrorInstance e) = e"
| "toError (NonError s) = new_Error s"

text \<open>\<^verbatim>\<open>Error.prototype.toString\<close>, which \<^verbatim>\<open>String(error)\<close> calls.\<close>

definition error_toString :: "js_error \<Rightarrow> string" where
  "error_toString e =
     (if name e = [] then message e
      else if message e = [] then name e
      else name e @ '': '' @ message e)"

section \<open>The retry engine\<close>

text \<open>
  What \<^verbatim>\<open>retryRequest\<close> does that a caller can observe, in order: it calls the
  operation, it calls the observer, it waits.
\<close>

datatype event = Call nat | OnRetry nat js_error | Wait int

text \<open>
  The operation \<^verbatim>\<open>fn\<close> is given by the outcome of its k-th invocation: it throws
  (\<open>Inl\<close>) or resolves (\<open>Inr\<close>). \<^verbatim>\<open>onRetry\<close> is True when an observer was passed; the
  observer itself only reports, and its call is recorded in the trace. \<^verbatim>\<open>maxRetries\<close>
  is a natural number and \<^verbatim>\<open>delay\<close> an integer number of milliseconds; a wait is
  recorded with the duration handed to \<^verbatim>\<open>setTimeout\<close>. The loop
  \<^verbatim>\<open>for (let attempt = 1; attempt <= maxRetries; attempt++)\<close>:
\<close>

function retry_loop ::
  "(nat \<Rightarrow> thrown + 'a) \<Rightarrow> nat \<Rightarrow> int \<Rightarrow> bool \<Rightarrow> nat \<Rightarrow> js_error option
     \<Rightarrow> (js_error + 'a) \<times> event list" where
  "retry_loop fn maxRetries delay onRetry attempt lastError =
     (if attempt \<le> maxRetries then
        (case fn attempt of
           Inr v \<Rightarrow> (Inr v, [Call attempt])
         | Inl error \<Rightarrow>
             (let lastError' = toError error;
                  notified = (if onRetry \<and> attempt < maxRetries
                              then [OnRetry attempt lastError'] else []);
                  waited = (if attempt < maxRetries
                            then [Wait (delay * 2 ^ (attempt - 1))] else []);
                  (r, rest) = retry_loop fn maxRetries delay onRetry (attempt + 1) (Some lastError')
              in (r, Call attempt # notified @ waited @ rest)))
      else
        (Inl (case lastError of
                Some e \<Rightarrow> e
              | None \<Rightarrow> new_Error ''Request failed after retries''), []))"
  by pat_completeness auto
termination
  by (relation "measure (\<lambda>(fn, maxRetries, delay, onRetry, attempt, lastError).
        Suc maxRetries - attempt)") auto

definition retryRequest ::
  "(nat \<Rightarrow> thrown + 'a) \<Rightarrow> nat \<Rightarrow> int \<Rightarrow> bool \<Rightarrow> (js_error + 'a) \<times> event list" where
  "retryRequest fn maxRetries delay onRetry = retry_loop fn maxRetries delay onRetry 1 None"

text \<open>Readings of a trace: the attempts made, the waits, the observer's calls.\<close>

fun calls_of :: "event list \<Rightarrow> nat list" where
  "calls_of [] = []"
| "calls_of (Call k # es) = k # calls_of es"
| "calls_of (e # es) = calls_of es"

fun waits_of :: "event list \<Rightarrow> int list" where
  "waits_of [] = []"
| "waits_of (Wait t # es) = t # waits_of es"
| "waits_of (e # es) = waits_of es"

fun notifications_of :: "event list \<Rightarrow> (nat \<times> js_error) list" where
  "notifications_of [] = []"
| "notifications_of (OnRetry k e # es) = (k, e) # notifications_of es"
| "notifications_of (e # es) = notifications_of es"

text \<open>The events one failed attempt \<open>k\<close> of \<open>n\<close> leaves in the trace, \<open>th k\<close> being what it threw.\<close>

definition failed_attempt :: "(nat \<Rightarrow> thrown) \<Rightarrow> nat \<Rightarrow> int \<Rightarrow> bool \<Rightarrow> nat \<Rightarrow> event list" where
  "failed_attempt th n d b k =
     Call k # (if b \<and> k < n then [OnRetry k (toError (th k))] else [])
            @ (if k < n then [Wait (d * 2 ^ (k - 1))] else [])"

section \<open>The error classifier\<close>

text \<open>Truthiness of an optional number, and \<^verbatim>\<open>a || b\<close> on two of them.\<close>

definition truthy_num :: "int option \<Rightarrow> bool" where
  "truthy_num v = (case v of None \<Rightarrow> False | Some n \<Rightarrow> n \<noteq> 0)"

definition num_or :: "int option \<Rightarrow> int option \<Rightarrow> int option" where
  "num_or a b = (if truthy_num a then a else b)"

definition retryableMessages :: "string list" where
  "retryableMessages =
     [''timeout'', ''network'', ''connection'', ''rate limit'', ''server error'',
      ''service unavailable'', ''temporarily unavailable'']"

text \<open>
  \<^verbatim>\<open>isRetryableError(error)\<close>; \<open>None\<close> is a \<^verbatim>\<open>null\<close> or \<^verbatim>\<open>undefined\<close> argument.
  \<^verbatim>\<open>String(error.message || error)\<close> is the message when it is not empty and the
  error's string form otherwise.
\<close>

definition isRetryableError :: "js_error option \<Rightarrow> bool" where
  "isRetryableError error =
     (case error of
        None \<Rightarrow> False
      | Some e \<Rightarrow>
          if name e = ''NetworkError'' \<or> name e = ''TypeError'' then True
          else if truthy_num (num_or (status e) (statusCode e)) then
            (case num_or (status e) (statusCode e) of
               Some s \<Rightarrow> s = 429 \<or> s = 408 \<or> (s \<ge> 500 \<and> s < 600)
             | None \<Rightarrow> False)
          else
            (let errorMessage =
                   toLowerCase (if message e \<noteq> [] then message e else error_toString e)
             in list_ex (\<lambda>msg. str_includes errorMessage msg) retryableMessages))"

text \<open>
  The retryability rule in the words of the specification, to compare with the
  classifier: network kind, or a status code of 429, 408 or in [500,599), or a
  lowercased message containing one of the vocabulary.
\<close>

definition spec_isRetryable :: "js_error \<Rightarrow> bool" where
  "spec_isRetryable e =
     ((name e = ''NetworkError'' \<or> name e = ''TypeError'')
      \<or> (case num_or (status e) (statusCode e) of
            Some s \<Rightarrow> s = 429 \<or> s = 408 \<or> (500 \<le> s \<and> s < 599)
          | None \<Rightarrow> False)
      \<or> list_ex (\<lambda>msg. str_includes (toLowerCase (message e)) msg) retryableMessages)"

section \<open>The client optimization path\<close>

text \<open>
  The operation \<^verbatim>\<open>handleOptimize\<close> passes to \<^verbatim>\<open>retryRequest\<close>. \<open>invoke k\<close> is what the
  k-th call of \<^verbatim>\<open>supabase.functions.invoke\<close> resolves to: an error object (\<open>Inl\<close>) or
  data. A non-retryable error is thrown as it is, a retryable one is thrown as a new
  \<^verbatim>\<open>Error\<close> carrying the message and the status.
\<close>

definition optimize_operation :: "(nat \<Rightarrow> js_error + 'a) \<Rightarrow> nat \<Rightarrow> thrown + 'a" where
  "optimize_operation invoke k =
     (case invoke k of
        Inl error \<Rightarrow>
          if \<not> isRetryableError (Some error) then Inl (ErrorInstance error)
          else Inl (ErrorInstance
                 \<lparr>name = ''Error'',
                  message = (if message error \<noteq> [] then message error else ''Optimization failed''),
                  status = status error, statusCode = None\<rparr>)
      | Inr invokeResult \<Rightarrow> Inr invokeResult)"

definition handleOptimize_request ::
  "(nat \<Rightarrow> js_error + 'a) \<Rightarrow> (js_error + 'a) \<times> event list" where
  "handleOptimize_request invoke = retryRequest (optimize_operation invoke) 3 1000 True"

section \<open>The file text extractor\<close>

record ParseResult =
  result_text :: string
  result_error :: "string option"

text \<open>
  A \<^verbatim>\<open>File\<close>: its declared media type, its name, and what \<^verbatim>\<open>arrayBuffer()\<close> and
  \<^verbatim>\<open>text()\<close> settle to (\<open>Inl\<close> is a rejection).
\<close>

type_synonym bytes = "nat list"

record File =
  file_type :: string
  file_name :: string
  file_arrayBuffer :: "thrown + bytes"
  file_text :: "thrown + string"

text \<open>
  The two decoding libraries are parameters; each of their calls settles, with a value
  or with a rejection. A loaded PDF document is the list of what \<^verbatim>\<open>getPage(i)\<close>
  settles to for \<open>i = 1, ..., numPages\<close>; a page is what its \<^verbatim>\<open>getTextContent()\<close>
  settles to, the \<^verbatim>\<open>str\<close> of each item.
\<close>

type_synonym pdf_page = "thrown + string list"

type_synonym pdf_document = "(thrown + pdf_page) list"

record libraries =
  getDocument :: "bytes \<Rightarrow> thrown + pdf_document"
  extractRawText :: "bytes \<Rightarrow> thrown + string"

text \<open>\<^verbatim>\<open>try { body } catch (error) { handler }\<close>.\<close>

definition try_catch :: "(thrown + 'a) \<Rightarrow> (thrown \<Rightarrow> thrown + 'a) \<Rightarrow> thrown + 'a" where
  "try_catch body handler = (case body of Inl error \<Rightarrow> handler error | Inr v \<Rightarrow> Inr v)"

text \<open>\<^verbatim>\<open>error instanceof Error ? error.message : fallback\<close>.\<close>

fun catch_message :: "thrown \<Rightarrow> string \<Rightarrow> string" where
  "catch_message (ErrorInstance e) fallback = message e"
| "catch_message (NonError s) fallback = fallback"

definition failed :: "thrown \<Rightarrow> string \<Rightarrow> thrown + ParseResult" where
  "failed error fallback =
     Inr \<lparr>result_text = [], result_error = Some (catch_message error fallback)\<rparr>"

text \<open>The loop over the pages of \<^verbatim>\<open>extractTextFromPDF\<close>, \<open>fullText\<close> being its accumulator.\<close>

fun pdf_pages :: "pdf_document \<Rightarrow> string \<Rightarrow> thrown + string" where
  "pdf_pages [] fullText = Inr fullText"
| "pdf_pages (p # ps) fullText =
     (case p of
        Inl error \<Rightarrow> Inl error
      | Inr page \<Rightarrow>
          (case page of
             Inl error \<Rightarrow> Inl error
           | Inr items \<Rightarrow> pdf_pages ps (fullText @ join '' '' items @ [CHR 0x0A])))"

definition extractTextFromPDF_body :: "libraries \<Rightarrow> File \<Rightarrow> thrown + ParseResult" where
  "extractTextFromPDF_body lib file =
     (case file_arrayBuffer file of
        Inl error \<Rightarrow> Inl error
      | Inr arrayBuffer \<Rightarrow>
          (case getDocument lib arrayBuffer of
             Inl error \<Rightarrow> Inl error
           | Inr pdf \<Rightarrow>
               (case pdf_pages pdf [] of
                  Inl error \<Rightarrow> Inl error
                | Inr fullText \<Rightarrow> Inr \<lparr>result_text = trim fullText, result_error = None\<rparr>)))"

definition extractTextFromPDF :: "libraries \<Rightarrow> File \<Rightarrow> thrown + ParseResult" where
  "extractTextFromPDF lib file =
     try_catch (extractTextFromPDF_body lib file) (\<lambda>error. failed error ''Failed to parse PDF'')"

definition extractTextFromDOCX_body :: "libraries \<Rightarrow> File \<Rightarrow> thrown + ParseResult" where
  "extractTextFromDOCX_body lib file =
     (case file_arrayBuffer file of
        Inl error \<Rightarrow> Inl error
      | Inr arrayBuffer \<Rightarrow>
          (case extractRawText lib arrayBuffer of
             Inl error \<Rightarrow> Inl error
           | Inr v \<Rightarrow> Inr \<lparr>result_text = trim v, result_error = None\<rparr>))"

definition extractTextFromDOCX :: "libraries \<Rightarrow> File \<Rightarrow> thrown + ParseResult" where
  "extractTextFromDOCX lib file =
     try_catch (extractTextFromDOCX_body lib file) (\<lambda>error. failed error ''Failed to parse DOCX'')"

definition extractTextFromTXT_body :: "File \<Rightarrow> thrown + ParseResult" where
  "extractTextFromTXT_body file =
     (case file_text file of
        Inl error \<Rightarrow> Inl error
      | Inr t \<Rightarrow> Inr \<lparr>result_text = trim t, result_error = None\<rparr>)"

definition extractTextFromTXT :: "File \<Rightarrow> thrown + ParseResult" where
  "extractTextFromTXT file =
     try_catch (extractTextFromTXT_body file) (\<lambda>error. failed error ''Failed to parse TXT'')"

definition extractTextFromFile :: "libraries \<Rightarrow> File \<Rightarrow> thrown + ParseResult" where
  "extractTextFromFile lib file =
     (let fileType = file_type file;
          fileName = toLowerCase (file_name file)
      in if fileType = ''application/pdf'' \<or> endsWith fileName ''.pdf''
         then extractTextFromPDF lib file
         else if fileType = ''application/vnd.openxmlformats-officedocument.wordprocessingml.document''
               \<or> fileType = ''application/msword''
               \<or> endsWith fileName ''.docx''
               \<or> endsWith fileName ''.doc''
         then extractTextFromDOCX lib file
         else if fileType = ''text/plain'' \<or> endsWith fileName ''.txt''
         then extractTextFromTXT file
         else Inr \<lparr>result_text = [],
                   result_error = Some ''Unsupported file type. Please upload PDF, DOCX, or TXT.''\<rparr>)"

section \<open>The response normalizer\<close>

text \<open>
  The regular expression \<^verbatim>\<open>/```(?:json)?\s*([\s\S]*?)\s*```/\<close> of the handler, as the
  backtracking matcher tries it: every function below is one piece of the pattern
  followed by the rest of it, and returns the captured group of the first way to match
  in the order the matcher tries them.
\<close>

definition fence :: string where
  "fence = ''```''"

text \<open>
  A greedy \<^verbatim>\<open>\s*\<close> that may take up to \<open>k\<close> characters, followed by \<open>rest\<close>: the longest
  run first, then one character fewer at a time.
\<close>

fun greedy_ws :: "nat \<Rightarrow> (string \<Rightarrow> 'r option) \<Rightarrow> string \<Rightarrow> 'r option" where
  "greedy_ws 0 rest s = rest s"
| "greedy_ws (Suc k) rest s =
     (case rest (drop (Suc k) s) of
        Some r \<Rightarrow> Some r
      | None \<Rightarrow> greedy_ws k rest s)"

definition ws_run :: "string \<Rightarrow> nat" where
  "ws_run s = length (takeWhile is_ws s)"

text \<open>The end of the pattern, \<^verbatim>\<open>\s*```\<close>, at the head of \<open>s\<close>.\<close>

definition closing :: "string \<Rightarrow> unit option" where
  "closing s =
     greedy_ws (ws_run s) (\<lambda>r. if startsWith r fence then Some () else None) s"

text \<open>
  The lazy group \<^verbatim>\<open>([\s\S]*?)\<close> followed by the end of the pattern: the shortest
  capture first, then one character more at a time. \<open>acc\<close> is what the group holds.
\<close>

fun lazy_capture :: "string \<Rightarrow> string \<Rightarrow> string option" where
  "lazy_capture acc [] = (if closing [] \<noteq> None then Some acc else None)"
| "lazy_capture acc (c # cs) =
     (if closing (c # cs) \<noteq> None then Some acc else lazy_capture (acc @ [c]) cs)"

text \<open>\<^verbatim>\<open>\s*([\s\S]*?)\s*```\<close>, what follows the optional tag.\<close>

definition after_tag :: "string \<Rightarrow> string option" where
  "after_tag s = greedy_ws (ws_run s) (lazy_capture []) s"

text \<open>\<^verbatim>\<open>(?:json)?\<close> and what follows: with the tag first, then without it.\<close>

definition after_open :: "string \<Rightarrow> string option" where
  "after_open s =
     (if startsWith s ''json'' then
        (case after_tag (drop 4 s) of
           Some g \<Rightarrow> Some g
         | None \<Rightarrow> after_tag s)
      else after_tag s)"

text \<open>The whole pattern anchored at the head of \<open>s\<close>.\<close>

definition match_here :: "string \<Rightarrow> string option" where
  "match_here s = (if startsWith s fence then after_open (drop 3 s) else None)"

text \<open>
  \<^verbatim>\<open>optimizedContent.match(...)\<close>: the leftmost position at which the pattern matches;
  the result is group 1 of the match, \<open>None\<close> when there is no match.
\<close>

fun jsonMatch :: "string \<Rightarrow> string option" where
  "jsonMatch [] = match_here []"
| "jsonMatch (c # cs) =
     (case match_here (c # cs) of
        Some g \<Rightarrow> Some g
      | None \<Rightarrow> jsonMatch cs)"

definition jsonString :: "string \<Rightarrow> string" where
  "jsonString optimizedContent =
     (case jsonMatch optimizedContent of Some g \<Rightarrow> g | None \<Rightarrow> optimizedContent)"

text \<open>
  \<^verbatim>\<open>JSON.parse\<close> is a parameter: \<open>None\<close> is a thrown \<^verbatim>\<open>SyntaxError\<close>. The handler's
  \<^verbatim>\<open>try { ... parsedCV = JSON.parse(jsonString) } catch { throw new Error(...) }\<close>:
\<close>

definition parseAIResponse :: "(string \<Rightarrow> 'v option) \<Rightarrow> string \<Rightarrow> js_error + 'v" where
  "parseAIResponse JSON_parse optimizedContent =
     (case JSON_parse (jsonString optimizedContent) of
        None \<Rightarrow> Inl (new_Error ''Failed to parse AI response'')
      | Some parsedCV \<Rightarrow> Inr parsedCV)"

section \<open>Persisting an optimization\<close>

text \<open>
  A value that \<^verbatim>\<open>JSON.parse\<close> returns. An object is the list of its properties, read
  with \<open>map_of\<close>. Numbers are the rationals; the handler only tests them against zero.
\<close>

datatype json =
    JNull
  | JBool bool
  | JNum rat
  | JStr string
  | JArr "json list"
  | JObj "(string \<times> json) list"

text \<open>
  \<^verbatim>\<open>parsedCV.matchScore\<close>: reading a property of \<^verbatim>\<open>null\<close> throws a \<^verbatim>\<open>TypeError\<close>, a
  property that is not there reads as \<^verbatim>\<open>undefined\<close> (\<open>None\<close>).
\<close>

fun get_matchScore :: "json \<Rightarrow> thrown + json option" where
  "get_matchScore JNull =
     Inl (ErrorInstance \<lparr>name = ''TypeError'',
            message = ''Cannot read properties of null'',
            status = None, statusCode = None\<rparr>)"
| "get_matchScore (JObj props) = Inr (map_of props ''matchScore'')"
| "get_matchScore v = Inr None"

text \<open>Truthiness of a value that may be \<^verbatim>\<open>undefined\<close>.\<close>

fun truthy :: "json option \<Rightarrow> bool" where
  "truthy None = False"
| "truthy (Some JNull) = False"
| "truthy (Some (JBool b)) = b"
| "truthy (Some (JNum n)) = (n \<noteq> 0)"
| "truthy (Some (JStr s)) = (s \<noteq> [])"
| "truthy (Some (JArr xs)) = True"
| "truthy (Some (JObj props)) = True"

text \<open>\<^verbatim>\<open>v || null\<close>.\<close>

definition or_null :: "json option \<Rightarrow> json" where
  "or_null v = (if truthy v then (case v of Some x \<Rightarrow> x | None \<Rightarrow> JNull) else JNull)"

record cv_optimization_row =
  user_id :: string
  job_description :: string
  job_role :: "string option"
  optimized_content :: json
  match_score :: json
  template_name :: string

text \<open>
  The block that saves the optimization: the row handed to \<^verbatim>\<open>insert\<close>, or \<open>None\<close> when
  nothing is inserted (no user, no credentials, or an exception while the row is built,
  which the \<^verbatim>\<open>catch\<close> only logs).
\<close>

definition save_optimization ::
  "string option \<Rightarrow> string \<Rightarrow> string \<Rightarrow> string \<Rightarrow> string option \<Rightarrow> json
     \<Rightarrow> cv_optimization_row option" where
  "save_optimization userId supabaseUrl supabaseKey jobDescription jobRole parsedCV =
     (case userId of
        None \<Rightarrow> None
      | Some uid \<Rightarrow>
          if uid \<noteq> [] \<and> supabaseUrl \<noteq> [] \<and> supabaseKey \<noteq> [] then
            (case get_matchScore parsedCV of
               Inl error \<Rightarrow> None
             | Inr matchScore \<Rightarrow>
                 Some \<lparr>user_id = uid,
                       job_description = jobDescription,
                       job_role = jobRole,
                       optimized_content = parsedCV,
                       match_score = or_null matchScore,
                       template_name = ''modern''\<rparr>)
          else None)"

section \<open>The structured resume\<close>

text \<open>
  \<^verbatim>\<open>CVData\<close>. The codecs test every top-level field for presence before they use it,
  so each one is optional here (\<open>None\<close> is an absent field). The two fields of the
  header are \<^verbatim>\<open>name\<close> and \<^verbatim>\<open>contact\<close> in the source.
\<close>

record cv_header =
  header_name :: string
  header_contact :: string

record experience_entry =
  title :: string
  company :: string
  period :: string
  highlights :: "string list"

record education_entry =
  degree :: string
  institution :: string
  year :: string

record CVData =
  header :: "cv_header option"
  summary :: "string option"
  skills :: "string list option"
  experience :: "experience_entry list option"
  education :: "education_entry list option"
  matchScore :: "rat option"

text \<open>The bullet character U+2022, which lies above the modelled code units, as one character.\<close>

definition bullet :: string where
  "bullet = [CHR 0x95]"

text \<open>Truthiness of an optional string and of \<^verbatim>\<open>xs && xs.length > 0\<close>.\<close>

definition present_text :: "string option \<Rightarrow> bool" where
  "present_text v = (case v of None \<Rightarrow> False | Some t \<Rightarrow> t \<noteq> [])"

definition present_list :: "'a list option \<Rightarrow> bool" where
  "present_list v = (case v of None \<Rightarrow> False | Some xs \<Rightarrow> length xs > 0)"

definition the_list :: "'a list option \<Rightarrow> 'a list" where
  "the_list v = (case v of None \<Rightarrow> [] | Some xs \<Rightarrow> xs)"

definition the_text :: "string option \<Rightarrow> string" where
  "the_text v = (case v of None \<Rightarrow> [] | Some t \<Rightarrow> t)"

section \<open>The PDF codec\<close>

text \<open>
  What \<^verbatim>\<open>generatePDF\<close> takes from jsPDF: the page size, and \<^verbatim>\<open>splitTextToSize\<close>, which
  wraps a text to a width in the font that is set (size, bold or not) when it is called.
\<close>

record jsPDF =
  pageWidth :: rat
  pageHeight :: rat
  splitTextToSize :: "nat \<Rightarrow> bool \<Rightarrow> string \<Rightarrow> rat \<Rightarrow> string list"

text \<open>One \<^verbatim>\<open>doc.text(line, x, y)\<close>, with the page and the font it is drawn in.\<close>

record text_op =
  op_page :: nat
  op_text :: string
  op_x :: rat
  op_y :: rat
  op_fontSize :: nat
  op_bold :: bool

text \<open>
  The document under construction and the cursor \<^verbatim>\<open>yPosition\<close>. The cursor is a
  rational: the model adds the line heights exactly.
\<close>

record pdf_state =
  pages :: nat
  fontSize :: nat
  bold :: bool
  ops :: "text_op list"
  yPosition :: rat

definition margin :: rat where
  "margin = 20"

definition maxWidth :: "jsPDF \<Rightarrow> rat" where
  "maxWidth lib = pageWidth lib - 2 * margin"

definition doc_text :: "string \<Rightarrow> rat \<Rightarrow> pdf_state \<Rightarrow> pdf_state" where
  "doc_text line x st =
     st\<lparr>ops := ops st @ [\<lparr>op_page = pages st, op_text = line, op_x = x, op_y = yPosition st,
                            op_fontSize = fontSize st, op_bold = bold st\<rparr>]\<rparr>"

definition addPage :: "pdf_state \<Rightarrow> pdf_state" where
  "addPage st = st\<lparr>pages := pages st + 1\<rparr>"

text \<open>The body of the \<^verbatim>\<open>lines.forEach\<close> of \<^verbatim>\<open>addText\<close>.\<close>

definition addText_line :: "jsPDF \<Rightarrow> nat \<Rightarrow> string \<Rightarrow> pdf_state \<Rightarrow> pdf_state" where
  "addText_line lib fs line st =
     (let st1 = (if yPosition st > pageHeight lib - 30
                 then (addPage st)\<lparr>yPosition := margin\<rparr> else st);
          st2 = doc_text line margin st1
      in st2\<lparr>yPosition := yPosition st2 + of_nat fs * 0.4\<rparr>)"

definition addText :: "jsPDF \<Rightarrow> string \<Rightarrow> nat \<Rightarrow> bool \<Rightarrow> pdf_state \<Rightarrow> pdf_state" where
  "addText lib t fs isBold st =
     (let st1 = st\<lparr>fontSize := fs, bold := isBold\<rparr>;
          lines = splitTextToSize lib fs isBold t (maxWidth lib);
          st2 = fold (addText_line lib fs) lines st1
      in st2\<lparr>yPosition := yPosition st2 + 5\<rparr>)"

definition render_header :: "jsPDF \<Rightarrow> CVData \<Rightarrow> pdf_state \<Rightarrow> pdf_state" where
  "render_header lib cvData st =
     (case header cvData of
        None \<Rightarrow> st
      | Some h \<Rightarrow>
          (let st1 = addText lib (header_name h) 20 True st;
               st2 = addText lib (header_contact h) 11 False st1
           in st2\<lparr>yPosition := yPosition st2 + 10\<rparr>))"

definition render_summary :: "jsPDF \<Rightarrow> CVData \<Rightarrow> pdf_state \<Rightarrow> pdf_state" where
  "render_summary lib cvData st =
     (if present_text (summary cvData) then
        (let st1 = addText lib ''PROFESSIONAL SUMMARY'' 14 True st;
             st2 = addText lib (the_text (summary cvData)) 11 False st1
         in st2\<lparr>yPosition := yPosition st2 + 5\<rparr>)
      else st)"

definition render_skills :: "jsPDF \<Rightarrow> CVData \<Rightarrow> pdf_state \<Rightarrow> pdf_state" where
  "render_skills lib cvData st =
     (if present_list (skills cvData) then
        (let st1 = addText lib ''KEY SKILLS'' 14 True st;
             skillsText = join ('' '' @ bullet @ '' '') (the_list (skills cvData));
             st2 = addText lib skillsText 11 False st1
         in st2\<lparr>yPosition := yPosition st2 + 5\<rparr>)
      else st)"

text \<open>The body of the \<^verbatim>\<open>lines.forEach\<close> of a highlight, and the body of \<^verbatim>\<open>highlights.forEach\<close>.\<close>

definition highlight_line :: "string \<Rightarrow> pdf_state \<Rightarrow> pdf_state" where
  "highlight_line line st =
     (let st1 = doc_text line (margin + 10) st
      in st1\<lparr>yPosition := yPosition st1 + 5\<rparr>)"

definition render_highlight :: "jsPDF \<Rightarrow> string \<Rightarrow> pdf_state \<Rightarrow> pdf_state" where
  "render_highlight lib highlight st =
     (let st1 = st\<lparr>fontSize := 10\<rparr>;
          st2 = doc_text (bullet @ '' '') (margin + 5) st1;
          lines = splitTextToSize lib 10 (bold st2) highlight (maxWidth lib - 10)
      in fold highlight_line lines st2)"

definition render_experience_entry :: "jsPDF \<Rightarrow> experience_entry \<Rightarrow> pdf_state \<Rightarrow> pdf_state" where
  "render_experience_entry lib entry st =
     (let st1 = addText lib (title entry @ '' | '' @ company entry) 12 True st;
          st2 = addText lib (period entry) 10 False st1;
          st3 = fold (render_highlight lib) (highlights entry) st2
      in st3\<lparr>yPosition := yPosition st3 + 5\<rparr>)"

definition render_experience :: "jsPDF \<Rightarrow> CVData \<Rightarrow> pdf_state \<Rightarrow> pdf_state" where
  "render_experience lib cvData st =
     (if present_list (experience cvData) then
        (let st1 = addText lib ''PROFESSIONAL EXPERIENCE'' 14 True st
         in fold (render_experience_entry lib) (the_list (experience cvData)) st1)
      else st)"

definition render_education_entry :: "jsPDF \<Rightarrow> education_entry \<Rightarrow> pdf_state \<Rightarrow> pdf_state" where
  "render_education_entry lib edu st =
     (let st1 = addText lib (degree edu) 12 True st;
          st2 = addText lib (institution edu @ '' '' @ bullet @ '' '' @ year edu) 10 False st1
      in st2\<lparr>yPosition := yPosition st2 + 5\<rparr>)"

definition render_education :: "jsPDF \<Rightarrow> CVData \<Rightarrow> pdf_state \<Rightarrow> pdf_state" where
  "render_education lib cvData st =
     (if present_list (education cvData) then
        (let st1 = addText lib ''EDUCATION'' 14 True st
         in fold (render_education_entry lib) (the_list (education cvData)) st1)
      else st)"

text \<open>
  \<^verbatim>\<open>new jsPDF()\<close>: one page, 16 point normal; the cursor starts at the margin. The calls
  of jsPDF are taken to return; \<open>generatePDF\<close> gives the document that is saved.
\<close>

definition new_doc :: pdf_state where
  "new_doc = \<lparr>pages = 1, fontSize = 16, bold = False, ops = [], yPosition = margin\<rparr>"

definition generatePDF :: "jsPDF \<Rightarrow> CVData \<Rightarrow> pdf_state" where
  "generatePDF lib cvData =
     render_education lib cvData
       (render_experience lib cvData
         (render_skills lib cvData
           (render_summary lib cvData
             (render_header lib cvData new_doc))))"

text \<open>A section heading of the PDF: a line drawn in 14 point bold.\<close>

definition pdf_heading :: "string \<Rightarrow> text_op \<Rightarrow> bool" where
  "pdf_heading t p = (op_text p = t \<and> op_fontSize p = 14 \<and> op_bold p)"

text \<open>
  What telling a heading from other text needs of \<^verbatim>\<open>splitTextToSize\<close>: every line it
  returns is a piece of the text it was given.
\<close>

definition lines_are_pieces :: "jsPDF \<Rightarrow> bool" where
  "lines_are_pieces lib =
     (\<forall>fs b t w. \<forall>l \<in> set (splitTextToSize lib fs b t w). str_includes t l)"

text \<open>The page-break policy at one drawn line: it lies no lower than the bottom margin.\<close>

definition within_page :: "jsPDF \<Rightarrow> text_op \<Rightarrow> bool" where
  "within_page lib p = (op_y p \<le> pageHeight lib - 30)"

section \<open>The DOCX codec\<close>

datatype HeadingLevel = HEADING_1

datatype AlignmentType = CENTER

text \<open>A \<^verbatim>\<open>TextRun\<close> and a \<^verbatim>\<open>Paragraph\<close> with the options the codec sets; \<open>None\<close> is an option left out.\<close>

record TextRun =
  run_text :: string
  run_bold :: bool
  run_size :: "nat option"
  run_italics :: bool

record Paragraph =
  para_heading :: "HeadingLevel option"
  para_children :: "TextRun list"
  para_alignment :: "AlignmentType option"
  spacing_after :: "nat option"
  indent_left :: "nat option"

definition text_run :: "string \<Rightarrow> bool \<Rightarrow> nat option \<Rightarrow> TextRun" where
  "text_run t b sz = \<lparr>run_text = t, run_bold = b, run_size = sz, run_italics = False\<rparr>"

definition plain_paragraph :: "TextRun list \<Rightarrow> nat \<Rightarrow> Paragraph" where
  "plain_paragraph runs after =
     \<lparr>para_heading = None, para_children = runs, para_alignment = None,
      spacing_after = Some after, indent_left = None\<rparr>"

definition heading_paragraph :: "string \<Rightarrow> Paragraph" where
  "heading_paragraph t =
     \<lparr>para_heading = Some HEADING_1, para_children = [text_run t True (Some 28)],
      para_alignment = None, spacing_after = Some 200, indent_left = None\<rparr>"

definition docx_header :: "CVData \<Rightarrow> Paragraph list" where
  "docx_header cvData =
     (case header cvData of
        None \<Rightarrow> []
      | Some h \<Rightarrow>
          [(plain_paragraph [text_run (header_name h) True (Some 32)] 200)
              \<lparr>para_alignment := Some CENTER\<rparr>,
           (plain_paragraph [text_run (header_contact h) False (Some 22)] 400)
              \<lparr>para_alignment := Some CENTER\<rparr>])"

definition docx_summary :: "CVData \<Rightarrow> Paragraph list" where
  "docx_summary cvData =
     (if present_text (summary cvData) then
        [heading_paragraph ''PROFESSIONAL SUMMARY'',
         plain_paragraph [text_run (the_text (summary cvData)) False (Some 22)] 400]
      else [])"

definition docx_skills :: "CVData \<Rightarrow> Paragraph list" where
  "docx_skills cvData =
     (if present_list (skills cvData) then
        [heading_paragraph ''KEY SKILLS'',
         plain_paragraph
           [text_run (join ('' '' @ bullet @ '' '') (the_list (skills cvData))) False (Some 22)] 400]
      else [])"

definition docx_highlight :: "string \<Rightarrow> Paragraph" where
  "docx_highlight highlight =
     (plain_paragraph [text_run (bullet @ '' '') True None, text_run highlight False (Some 22)] 150)
        \<lparr>indent_left := Some 400\<rparr>"

definition docx_experience_entry :: "experience_entry \<Rightarrow> Paragraph list" where
  "docx_experience_entry entry =
     [plain_paragraph [text_run (title entry @ '' | '' @ company entry) True (Some 24)] 100,
      plain_paragraph [(text_run (period entry) False (Some 20))\<lparr>run_italics := True\<rparr>] 200]
     @ map docx_highlight (highlights entry)
     @ [plain_paragraph [] 300]"

definition docx_experience :: "CVData \<Rightarrow> Paragraph list" where
  "docx_experience cvData =
     (if present_list (experience cvData) then
        heading_paragraph ''PROFESSIONAL EXPERIENCE''
          # concat (map docx_experience_entry (the_list (experience cvData)))
      else [])"

definition docx_education_entry :: "education_entry \<Rightarrow> Paragraph list" where
  "docx_education_entry edu =
     [plain_paragraph [text_run (degree edu) True (Some 24)] 100,
      plain_paragraph
        [text_run (institution edu @ '' '' @ bullet @ '' '' @ year edu) False (Some 20)] 300]"

definition docx_education :: "CVData \<Rightarrow> Paragraph list" where
  "docx_education cvData =
     (if present_list (education cvData) then
        heading_paragraph ''EDUCATION''
          # concat (map docx_education_entry (the_list (education cvData)))
      else [])"

text \<open>The \<^verbatim>\<open>children\<close> of the one section of the document \<^verbatim>\<open>generateDOCX\<close> packs.\<close>

definition generateDOCX :: "CVData \<Rightarrow> Paragraph list" where
  "generateDOCX cvData =
     docx_header cvData @ docx_summary cvData @ docx_skills cvData
       @ docx_experience cvData @ docx_education cvData"

text \<open>A section heading of the DOCX: a paragraph of heading style with that text in a run.\<close>

definition docx_heading :: "string \<Rightarrow> Paragraph \<Rightarrow> bool" where
  "docx_heading t p =
     (para_heading p = Some HEADING_1 \<and> list_ex (\<lambda>r. run_text r = t) (para_children p))"

section \<open>Concrete inputs\<close>

text \<open>The inputs at which the theorems below are evaluated.\<close>

definition always_down :: "nat \<Rightarrow> thrown" where
  "always_down k = (if k = 1 then NonError ''first failure'' else ErrorInstance (new_Error ''still down''))"

definition server_error :: js_error where
  "server_error = \<lparr>name = ''Error'', message = ''Internal'', status = Some 500, statusCode = None\<rparr>"

definition twice_then_ok :: "nat \<Rightarrow> thrown + string" where
  "twice_then_ok k = (if k < 3 then Inl (ErrorInstance server_error) else Inr ''optimized'')"

definition not_found_but_network :: js_error where
  "not_found_but_network =
     \<lparr>name = ''Error'', message = ''Network timeout'', status = Some 404, statusCode = None\<rparr>"

definition request_timeout :: js_error where
  "request_timeout =
     \<lparr>name = ''Error'', message = ''Request Timeout, try later'', status = None,
      statusCode = None\<rparr>"

definition gateway_599 :: js_error where
  "gateway_599 = \<lparr>name = ''Error'', message = ''Gateway'', status = Some 599, statusCode = None\<rparr>"

text \<open>The error \<^verbatim>\<open>supabase.functions.invoke\<close> returns for a non-2xx answer of the function.\<close>

definition edge_function_error :: js_error where
  "edge_function_error =
     \<lparr>name = ''FunctionsHttpError'',
      message = ''Edge Function returned a non-2xx status code'',
      status = None, statusCode = None\<rparr>"

definition unreadable_txt :: File where
  "unreadable_txt =
     \<lparr>file_type = ''text/plain'', file_name = ''cv.txt'',
      file_arrayBuffer = Inl (ErrorInstance (new_Error [])),
      file_text = Inl (ErrorInstance (new_Error []))\<rparr>"

definition broken_pdf :: File where
  "broken_pdf =
     \<lparr>file_type = ''application/pdf'', file_name = ''cv.pdf'',
      file_arrayBuffer = Inr [37, 80, 68, 70], file_text = Inr ''%PDF''\<rparr>"

definition strict_libraries :: libraries where
  "strict_libraries =
     \<lparr>getDocument = (\<lambda>b. Inl (ErrorInstance (new_Error ''Invalid PDF structure.''))),
      extractRawText = (\<lambda>b. Inl (NonError ''corrupt zip''))\<rparr>"

definition unscored_cv :: json where
  "unscored_cv = JObj [(''summary'', JStr ''Backend engineer''), (''matchScore'', JNum 0)]"

text \<open>The reply of the specification's example and a parser that knows one document.\<close>

definition header_json :: string where
  "header_json = ''{'' @ [CHR 0x22] @ ''header'' @ [CHR 0x22] @ '':{}'' @ ''}''"

definition fenced_reply :: string where
  "fenced_reply =
     ''Here you go:'' @ [CHR 0x0A] @ fence @ ''json'' @ [CHR 0x0A] @ header_json @ [CHR 0x0A] @ fence"

definition toy_parse :: "string \<Rightarrow> json option" where
  "toy_parse s = (if s = header_json then Some (JObj [(''header'', JObj [])]) else None)"

text \<open>An A4 page in millimetres with texts short enough never to wrap.\<close>

definition a4_nowrap :: jsPDF where
  "a4_nowrap = \<lparr>pageWidth = 210, pageHeight = 297, splitTextToSize = (\<lambda>fs b t w. [t])\<rparr>"

definition sixty_highlights :: "string list" where
  "sixty_highlights = replicate 60 ''Shipped a feature''"

definition long_cv :: CVData where
  "long_cv =
     \<lparr>header = None, summary = None, skills = None,
      experience = Some [\<lparr>title = ''Engineer'', company = ''Acme'', period = ''2020 - 2024'',
                          highlights = sixty_highlights\<rparr>],
      education = None, matchScore = None\<rparr>"

text \<open>The document of \<open>long_cv\<close> when the loop over the highlights starts.\<close>

definition before_highlights :: pdf_state where
  "before_highlights =
     \<lparr>pages = 1, fontSize = 10, bold = False,
      ops = [\<lparr>op_page = 1, op_text = ''PROFESSIONAL EXPERIENCE'', op_x = 20, op_y = 20,
               op_fontSize = 14, op_bold = True\<rparr>,
             \<lparr>op_page = 1, op_text = ''Engineer | Acme'', op_x = 20, op_y = 153 / 5,
               op_fontSize = 12, op_bold = True\<rparr>,
             \<lparr>op_page = 1, op_text = ''2020 - 2024'', op_x = 20, op_y = 202 / 5,
               op_fontSize = 10, op_bold = False\<rparr>],
      yPosition = 247 / 5\<rparr>"

definition no_skills_cv :: CVData where
  "no_skills_cv =
     \<lparr>header = Some \<lparr>header_name = ''KEY SKILLS'', header_contact = ''jane@example.com''\<rparr>,
      summary = Some ''Backend engineer'', skills = Some [],
      experience = Some [\<lparr>title = ''Engineer'', company = ''Acme'', period = ''2020 - 2024'',
                          highlights = [''KEY SKILLS'']\<rparr>],
      education = Some [\<lparr>degree = ''KEY SKILLS'', institution = ''MIT'', year = ''2019''\<rparr>],
      matchScore = None\<rparr>"

text \<open>A JSON object with a triple backtick inside a string, bare and in a fenced reply.\<close>

definition backtick_json :: string where
  "backtick_json =
     ''{'' @ [CHR 0x22] @ ''summary'' @ [CHR 0x22] @ '':'' @ [CHR 0x22] @ ''Use ``` for code''
       @ [CHR 0x22] @ ''}''"

definition truncated_json :: string where
  "truncated_json = ''{'' @ [CHR 0x22] @ ''summary'' @ [CHR 0x22] @ '':'' @ [CHR 0x22] @ ''Use''"

definition fenced_backtick_reply :: string where
  "fenced_backtick_reply =
     ''Here you go:'' @ [CHR 0x0A] @ fence @ ''json'' @ [CHR 0x0A] @ backtick_json
       @ [CHR 0x0A] @ fence"

text \<open>A parser that knows this one document and, as \<^verbatim>\<open>JSON.parse\<close> does, rejects its truncation.\<close>

definition summary_parse :: "string \<Rightarrow> json option" where
  "summary_parse s =
     (if s = backtick_json then Some (JObj [(''summary'', JStr ''Use ``` for code'')]) else None)"

section \<open>Properties of the strings\<close>

lemma startsWith_prefix: "startsWith s t = prefix t s"
  by (induction s t rule: startsWith.induct) auto

lemma str_includes_iff: "str_includes s t = (\<exists>ps ss. s = ps @ t @ ss)"
proof (induction s)
  case Nil
  show ?case by auto
next
  case (Cons c s)
  show ?case
  proof
    assume "str_includes (c # s) t"
    then consider "startsWith (c # s) t" | "str_includes s t" by auto
    then show "\<exists>ps ss. c # s = ps @ t @ ss"
    proof cases
      case 1
      then obtain ss where "c # s = t @ ss" by (auto simp: startsWith_prefix prefix_def)
      then have "c # s = [] @ t @ ss" by simp
      then show ?thesis by blast
    next
      case 2
      then obtain ps ss where "s = ps @ t @ ss" using Cons.IH by blast
      then have "c # s = (c # ps) @ t @ ss" by simp
      then show ?thesis by blast
    qed
  next
    assume "\<exists>ps ss. c # s = ps @ t @ ss"
    then obtain ps ss where eq: "c # s = ps @ t @ ss" by blast
    show "str_includes (c # s) t"
    proof (cases ps)
      case Nil
      then have "prefix t (c # s)" using eq by (simp add: prefix_def)
      then show ?thesis by (simp add: startsWith_prefix del: startsWith.simps)
    next
      case (Cons p ps')
      then have "s = ps' @ t @ ss" using eq by simp
      then have "str_includes s t" using Cons.IH by blast
      then show ?thesis by simp
    qed
  qed
qed

section \<open>Properties of the retry engine\<close>

declare retry_loop.simps [simp del]

text \<open>
  A run in which every attempt from \<open>a\<close> on fails: the loop reports the error of the last
  attempt and leaves the events of each failed attempt, in order.
\<close>

lemma retry_loop_all_fail:
  assumes "\<And>k. a \<le> k \<Longrightarrow> k \<le> n \<Longrightarrow> fn k = Inl (th k)"
  shows "retry_loop fn n d b a le =
     (Inl (if a \<le> n then toError (th n)
           else (case le of Some e \<Rightarrow> e | None \<Rightarrow> new_Error ''Request failed after retries'')),
      concat (map (failed_attempt th n d b) [a ..< Suc n]))"
  using assms
proof (induction fn n d b a le rule: retry_loop.induct)
  case (1 fn n d b a le)
  show ?case
  proof (cases "a \<le> n")
    case False
    then show ?thesis by (simp add: retry_loop.simps [of fn n d b a le])
  next
    case True
    have f: "fn a = Inl (th a)" using 1(2) True by simp
    have ih: "retry_loop fn n d b (Suc a) (Some (toError (th a))) =
       (Inl (if Suc a \<le> n then toError (th n) else toError (th a)),
        concat (map (failed_attempt th n d b) [Suc a ..< Suc n]))"
      using 1(1) [OF True f refl refl refl] 1(2) by (simp del: upt_Suc)
    have an: "(if Suc a \<le> n then toError (th n) else toError (th a)) = toError (th n)"
      using True by (cases "a = n") auto
    have up: "[a ..< Suc n] = a # [Suc a ..< Suc n]"
      using True by (simp add: upt_conv_Cons)
    have "retry_loop fn n d b a le =
       (Inl (toError (th n)),
        failed_attempt th n d b a @ concat (map (failed_attempt th n d b) [Suc a ..< Suc n]))"
      using True f
      by (simp add: retry_loop.simps [of fn n d b a le] ih [unfolded an] failed_attempt_def Let_def
               del: upt_Suc)
    then show ?thesis
      using True by (simp add: up del: upt_Suc)
  qed
qed

lemma retryRequest_all_fail:
  assumes "1 \<le> n" and "\<forall>k. 1 \<le> k \<and> k \<le> n \<longrightarrow> fn k = Inl (th k)"
  shows "retryRequest fn n d b =
     (Inl (toError (th n)), concat (map (failed_attempt th n d b) [1 ..< Suc n]))"
  unfolding retryRequest_def using assms by (subst retry_loop_all_fail [where th = th]) auto

lemma waits_of_append: "waits_of (xs @ ys) = waits_of xs @ waits_of ys"
  by (induction xs rule: waits_of.induct) auto

lemma calls_of_append: "calls_of (xs @ ys) = calls_of xs @ calls_of ys"
  by (induction xs rule: calls_of.induct) auto

lemma notifications_of_append:
  "notifications_of (xs @ ys) = notifications_of xs @ notifications_of ys"
  by (induction xs rule: notifications_of.induct) auto

lemma calls_of_failed_attempts: "calls_of (concat (map (failed_attempt th n d b) ks)) = ks"
  by (induction ks) (auto simp: calls_of_append failed_attempt_def)

lemma waits_of_failed_attempts:
  "waits_of (concat (map (failed_attempt th n d b) ks)) =
     map (\<lambda>k. d * 2 ^ (k - 1)) (filter (\<lambda>k. k < n) ks)"
  by (induction ks) (auto simp: waits_of_append failed_attempt_def)

lemma notifications_of_failed_attempts:
  "notifications_of (concat (map (failed_attempt th n d b) ks)) =
     (if b then map (\<lambda>k. (k, toError (th k))) (filter (\<lambda>k. k < n) ks) else [])"
  by (induction ks) (auto simp: notifications_of_append failed_attempt_def)

lemma filter_below_upt: "filter (\<lambda>k. k < n) [1 ..< Suc n] = [1 ..< n]"
  by (induction n) auto

lemma sum_backoff: "sum_list (map (\<lambda>k. d * 2 ^ (k - 1)) [1 ..< n]) = (d::int) * (2 ^ (n - 1) - 1)"
proof (induction n)
  case 0
  show ?case by simp
next
  case (Suc n)
  show ?case
  proof (cases n)
    case 0
    then show ?thesis by simp
  next
    case (Suc m)
    with Suc.IH show ?thesis by (simp add: algebra_simps)
  qed
qed

text \<open>With no attempt allowed the operation is never called and the fixed error is reported.\<close>

lemma retryRequest_no_attempts:
  "retryRequest fn 0 d b = (Inl (new_Error ''Request failed after retries''), [])"
  by (simp add: retryRequest_def retry_loop.simps)

text \<open>
  Claim C4. With \<open>maxRetries = n \<ge> 1\<close> and an operation that fails on every attempt,
  \<open>retryRequest\<close> calls the operation exactly \<open>n\<close> times, for the attempts \<open>1, ..., n\<close> in
  this order, and rejects with the error of the \<open>n\<close>-th attempt: the thrown value as
  the loop records it in \<^verbatim>\<open>lastError\<close>, which is the thrown \<^verbatim>\<open>Error\<close> itself.
\<close>

theorem retryRequest_exhausts_attempts:
  assumes "1 \<le> n" and "\<forall>k. 1 \<le> k \<and> k \<le> n \<longrightarrow> fn k = Inl (th k)"
  shows "calls_of (snd (retryRequest fn n d b)) = [1 ..< Suc n]
       \<and> length (calls_of (snd (retryRequest fn n d b))) = n
       \<and> fst (retryRequest fn n d b) = Inl (toError (th n))
       \<and> (\<forall>e. th n = ErrorInstance e \<longrightarrow> fst (retryRequest fn n d b) = Inl e)"
proof -
  note eq = retryRequest_all_fail [OF assms, of d b]
  show ?thesis by (auto simp: eq calls_of_failed_attempts simp del: upt_Suc)
qed

theorem retryRequest_exhausts_attempts_witness:
  "calls_of (snd (retryRequest (\<lambda>k. Inl (always_down k) :: thrown + unit) 3 1000 True)) = [1, 2, 3]
   \<and> fst (retryRequest (\<lambda>k. Inl (always_down k) :: thrown + unit) 3 1000 True)
       = Inl (new_Error ''still down'')"
  using retryRequest_exhausts_attempts
          [of 3 "\<lambda>k. Inl (always_down k) :: thrown + unit" always_down 1000 True]
  by (simp add: always_down_def upt_rec)

text \<open>
  Claim C5. With a base delay \<open>d > 0\<close> and an operation that fails on all \<open>n \<ge> 1\<close>
  attempts, the trace of \<open>retryRequest\<close> is, for each attempt \<open>k\<close> in turn, the call, then
  (while attempts remain, \<open>k < n\<close>) the observer's call if there is one and a wait of
  \<open>d * 2 ^ (k - 1)\<close>, so that this wait lies between attempt \<open>k\<close> and attempt \<open>k + 1\<close>; the
  waits sum to \<open>d * (2 ^ (n - 1) - 1)\<close>.
\<close>

theorem retryRequest_backoff_waits:
  assumes "0 < d" and "1 \<le> n" and "\<forall>k. 1 \<le> k \<and> k \<le> n \<longrightarrow> fn k = Inl (th k)"
  shows "snd (retryRequest fn n d b) = concat (map (failed_attempt th n d b) [1 ..< Suc n])
       \<and> waits_of (snd (retryRequest fn n d b)) = map (\<lambda>k. d * 2 ^ (k - 1)) [1 ..< n]
       \<and> sum_list (waits_of (snd (retryRequest fn n d b))) = d * (2 ^ (n - 1) - 1)"
proof -
  have tr: "snd (retryRequest fn n d b) = concat (map (failed_attempt th n d b) [1 ..< Suc n])"
    by (simp only: retryRequest_all_fail [OF assms(2,3), of d b] snd_conv)
  have w: "waits_of (snd (retryRequest fn n d b)) = map (\<lambda>k. d * 2 ^ (k - 1)) [1 ..< n]"
    by (simp only: tr waits_of_failed_attempts filter_below_upt)
  show ?thesis
    by (simp only: w sum_backoff) (simp only: tr simp_thms)
qed

theorem retryRequest_backoff_waits_witness:
  "snd (retryRequest (\<lambda>k. Inl (always_down k) :: thrown + unit) 3 1000 False)
     = [Call 1, Wait 1000, Call 2, Wait 2000, Call 3]
   \<and> sum_list (waits_of (snd (retryRequest (\<lambda>k. Inl (always_down k) :: thrown + unit) 3 1000 False)))
     = 3000"
  using retryRequest_backoff_waits
          [of 1000 3 "\<lambda>k. Inl (always_down k) :: thrown + unit" always_down False]
  by (simp add: always_down_def upt_rec failed_attempt_def)

text \<open>
  Claim C6. Under a policy of 3 attempts with an observer, an operation that fails on
  attempts 1 and 2 and succeeds on attempt 3 makes \<open>retryRequest\<close> resolve with the value
  of the third attempt. The observer is called exactly twice, with attempt 1 and its
  error and with attempt 2 and its error, each time after the failed call and before
  the wait that follows it.
\<close>

theorem retryRequest_third_attempt_succeeds:
  assumes "fn 1 = Inl t1" and "fn 2 = Inl t2" and "fn 3 = Inr v"
  shows "retryRequest fn 3 d True =
           (Inr v, [Call 1, OnRetry 1 (toError t1), Wait d,
                    Call 2, OnRetry 2 (toError t2), Wait (d * 2),
                    Call 3])
       \<and> notifications_of (snd (retryRequest fn 3 d True)) = [(1, toError t1), (2, toError t2)]"
proof -
  have 3: "retry_loop fn 3 d True 3 (Some (toError t2)) = (Inr v, [Call 3])"
    by (subst retry_loop.simps) (use assms in simp)
  have 2: "retry_loop fn 3 d True 2 (Some (toError t1)) =
      (Inr v, [Call 2, OnRetry 2 (toError t2), Wait (d * 2), Call 3])"
    by (subst retry_loop.simps) (use assms 3 in simp)
  have two: "retry_loop fn 3 d True (Suc (Suc 0)) (Some (toError t1)) =
      (Inr v, [Call 2, OnRetry 2 (toError t2), Wait (d * 2), Call 3])"
    using 2 by (simp add: numeral_2_eq_2)
  have "retryRequest fn 3 d True =
           (Inr v, [Call 1, OnRetry 1 (toError t1), Wait d,
                    Call 2, OnRetry 2 (toError t2), Wait (d * 2),
                    Call 3])"
    unfolding retryRequest_def
    by (subst retry_loop.simps) (use assms two in \<open>simp add: Let_def\<close>)
  then show ?thesis by simp
qed

theorem retryRequest_third_attempt_succeeds_witness:
  "retryRequest twice_then_ok 3 1000 True =
     (Inr ''optimized'', [Call 1, OnRetry 1 server_error, Wait 1000,
                          Call 2, OnRetry 2 server_error, Wait 2000,
                          Call 3])"
  using retryRequest_third_attempt_succeeds
          [of twice_then_ok "ErrorInstance server_error" "ErrorInstance server_error"
              "''optimized''" 1000]
  by (simp add: twice_then_ok_def)

section \<open>Properties of the error classifier\<close>

lemmas classifier_defs = isRetryableError_def truthy_num_def num_or_def toLowerCase_def
  toLowerChar_def retryableMessages_def error_toString_def

text \<open>
  Claim C3, as stated, does not hold: an error with a status is classified by the status
  alone. An error of status 404 whose message says ``Network timeout'' satisfies the
  rule as the specification words it, and the classifier returns false.
\<close>

theorem isRetryableError_status_hides_message:
  "spec_isRetryable not_found_but_network \<and> \<not> isRetryableError (Some not_found_but_network)"
  by (simp add: spec_isRetryable_def not_found_but_network_def classifier_defs)

text \<open>The status range of the classifier ends at 599 included, where the rule as worded stops before it.\<close>

lemma isRetryableError_status_599:
  "isRetryableError (Some gateway_599) \<and> \<not> spec_isRetryable gateway_599"
  by (simp add: spec_isRetryable_def gateway_599_def classifier_defs)

text \<open>
  Claim C3, amended. \<open>isRetryableError\<close> returns false on \<^verbatim>\<open>null\<close>, and on an error
  object it returns true exactly when: the name is NetworkError or TypeError; or the
  error carries a non-zero status (\<^verbatim>\<open>status\<close>, else \<^verbatim>\<open>statusCode\<close>) that is 429, 408 or
  in [500,600); or it carries no non-zero status and its lowercased message (its string
  form when the message is empty) contains one of the seven substrings. So an error of
  status 404 that is not of network kind returns false, whatever its message.
\<close>

theorem isRetryableError_rule:
  "isRetryableError None = False
   \<and> (isRetryableError (Some e) \<longleftrightarrow>
        (name e = ''NetworkError'' \<or> name e = ''TypeError'')
      \<or> (\<exists>s. num_or (status e) (statusCode e) = Some s \<and> s \<noteq> 0
              \<and> (s = 429 \<or> s = 408 \<or> (500 \<le> s \<and> s < 600)))
      \<or> (\<not> truthy_num (num_or (status e) (statusCode e))
          \<and> (\<exists>msg \<in> set retryableMessages.
                str_includes
                  (toLowerCase (if message e \<noteq> [] then message e else error_toString e)) msg)))
   \<and> (name e \<noteq> ''NetworkError'' \<and> name e \<noteq> ''TypeError'' \<and> status e = Some 404
        \<longrightarrow> \<not> isRetryableError (Some e))"
  by (auto simp: isRetryableError_def truthy_num_def num_or_def list_ex_iff split: option.splits)

theorem isRetryableError_rule_witness:
  "isRetryableError (Some request_timeout) \<and> \<not> isRetryableError (Some not_found_but_network)"
  using isRetryableError_rule [of request_timeout] isRetryableError_rule [of not_found_but_network]
  by (simp add: request_timeout_def not_found_but_network_def truthy_num_def num_or_def
        toLowerCase_def toLowerChar_def retryableMessages_def)

section \<open>Properties of the client optimization path\<close>

text \<open>
  Whatever the classifier says of the error, the operation throws, and \<open>retryRequest\<close>
  retries whatever is thrown: a call that keeps failing with a non-retryable error makes
  all three attempts, notifies the observer twice and waits 1000 and 2000 ms.
\<close>

lemma handleOptimize_retries_non_retryable:
  assumes "\<not> isRetryableError (Some e)"
  shows "handleOptimize_request (\<lambda>k. Inl e) =
     (Inl e, [Call 1, OnRetry 1 e, Wait 1000, Call 2, OnRetry 2 e, Wait 2000, Call 3])"
proof -
  have "retryRequest (optimize_operation (\<lambda>k. Inl e)) 3 1000 True =
     (Inl (toError (ErrorInstance e)),
      concat (map (failed_attempt (\<lambda>k. ErrorInstance e) 3 1000 True) [1 ..< Suc 3]))"
    by (rule retryRequest_all_fail) (use assms in \<open>simp_all add: optimize_operation_def\<close>)
  then show ?thesis
    by (simp add: handleOptimize_request_def failed_attempt_def upt_rec
          numeral_2_eq_2 numeral_3_eq_3)
qed

text \<open>
  Claim C1, on the code. The error of a non-2xx answer of the edge function is
  non-retryable for the classifier; a call through \<open>handleOptimize\<close> that meets it on
  every attempt does not stop after the first: it makes three attempts, with two
  notifications and two backoff waits, before it reports the failure.
\<close>

theorem handleOptimize_non_retryable_runs_all_attempts:
  "\<not> isRetryableError (Some edge_function_error)
   \<and> handleOptimize_request (\<lambda>k. Inl edge_function_error :: js_error + unit) =
       (Inl edge_function_error,
        [Call 1, OnRetry 1 edge_function_error, Wait 1000,
         Call 2, OnRetry 2 edge_function_error, Wait 2000,
         Call 3])"
proof -
  have n: "\<not> isRetryableError (Some edge_function_error)"
    by (simp add: edge_function_error_def classifier_defs)
  show ?thesis using n handleOptimize_retries_non_retryable [OF n] by simp
qed

section \<open>Properties of the file text extractor\<close>

lemma try_catch_failed:
  "try_catch body (\<lambda>error. failed error fallback) =
     (case body of
        Inl error \<Rightarrow> Inr \<lparr>result_text = [], result_error = Some (catch_message error fallback)\<rparr>
      | Inr r \<Rightarrow> Inr r)"
  by (simp add: try_catch_def failed_def split: sum.splits)

lemma catch_message_nonempty:
  "fallback \<noteq> [] \<Longrightarrow> (\<And>e. error = ErrorInstance e \<Longrightarrow> message e \<noteq> [])
     \<Longrightarrow> catch_message error fallback \<noteq> []"
  by (cases error) auto

text \<open>
  Claim C9, as stated, does not hold in its last part: the message returned for a decode
  failure is the thrown \<^verbatim>\<open>Error\<close>'s own message, which may be empty. A text file
  whose \<^verbatim>\<open>text()\<close> rejects with an \<^verbatim>\<open>Error\<close> of empty message yields an empty \<open>error\<close>.
\<close>

theorem extractTextFromTXT_empty_error_message:
  "extractTextFromTXT_body unreadable_txt = Inl (ErrorInstance (new_Error []))
   \<and> extractTextFromTXT unreadable_txt = Inr \<lparr>result_text = [], result_error = Some []\<rparr>
   \<and> extractTextFromFile strict_libraries unreadable_txt
       = Inr \<lparr>result_text = [], result_error = Some []\<rparr>"
  by (simp add: unreadable_txt_def extractTextFromFile_def extractTextFromTXT_def
        extractTextFromTXT_body_def try_catch_def failed_def new_Error_def Let_def endsWith_def
        toLowerCase_def toLowerChar_def)

text \<open>
  Claim C9, amended. Each of the four extractors resolves to a \<open>ParseResult\<close> for every
  file and every behaviour of the decoders, and never rejects. A failure of the
  decoding is returned with an empty text and, as \<open>error\<close>, the message of the thrown
  \<^verbatim>\<open>Error\<close>, or the extractor's fixed message when what was thrown is not an \<^verbatim>\<open>Error\<close>;
  this message is non-empty unless an \<^verbatim>\<open>Error\<close> with an empty message was thrown.
  A file of no supported type or extension is returned with the fixed message.
\<close>

theorem extractors_total:
  "(\<exists>r. extractTextFromPDF lib file = Inr r)
   \<and> (\<exists>r. extractTextFromDOCX lib file = Inr r)
   \<and> (\<exists>r. extractTextFromTXT file = Inr r)
   \<and> (\<exists>r. extractTextFromFile lib file = Inr r)
   \<and> (\<forall>error. extractTextFromPDF_body lib file = Inl error \<longrightarrow>
         extractTextFromPDF lib file =
           Inr \<lparr>result_text = [],
                 result_error = Some (catch_message error ''Failed to parse PDF'')\<rparr>)
   \<and> (\<forall>error. extractTextFromDOCX_body lib file = Inl error \<longrightarrow>
         extractTextFromDOCX lib file =
           Inr \<lparr>result_text = [],
                 result_error = Some (catch_message error ''Failed to parse DOCX'')\<rparr>)
   \<and> (\<forall>error. extractTextFromTXT_body file = Inl error \<longrightarrow>
         extractTextFromTXT file =
           Inr \<lparr>result_text = [],
                 result_error = Some (catch_message error ''Failed to parse TXT'')\<rparr>)
   \<and> (\<forall>error fallback.
         fallback \<noteq> [] \<and> (\<forall>e. error = ErrorInstance e \<longrightarrow> message e \<noteq> [])
         \<longrightarrow> catch_message error fallback \<noteq> [])
   \<and> (file_type file \<notin> {''application/pdf'',
           ''application/vnd.openxmlformats-officedocument.wordprocessingml.document'',
           ''application/msword'', ''text/plain''}
        \<and> \<not> list_ex (endsWith (toLowerCase (file_name file)))
               [''.pdf'', ''.docx'', ''.doc'', ''.txt'']
      \<longrightarrow> extractTextFromFile lib file =
            Inr \<lparr>result_text = [],
                  result_error = Some ''Unsupported file type. Please upload PDF, DOCX, or TXT.''\<rparr>)"
proof -
  have pdf: "\<exists>r. extractTextFromPDF lib file = Inr r"
    by (simp add: extractTextFromPDF_def try_catch_failed split: sum.splits)
  have docx: "\<exists>r. extractTextFromDOCX lib file = Inr r"
    by (simp add: extractTextFromDOCX_def try_catch_failed split: sum.splits)
  have plain: "\<exists>r. extractTextFromTXT file = Inr r"
    by (simp add: extractTextFromTXT_def try_catch_failed split: sum.splits)
  have disp: "\<exists>r. extractTextFromFile lib file = Inr r"
    using pdf docx plain by (simp add: extractTextFromFile_def Let_def)
  have m: "\<forall>error fallback.
         fallback \<noteq> [] \<and> (\<forall>e. error = ErrorInstance e \<longrightarrow> message e \<noteq> [])
         \<longrightarrow> catch_message error fallback \<noteq> []"
    using catch_message_nonempty by blast
  have u: "file_type file \<notin> {''application/pdf'',
           ''application/vnd.openxmlformats-officedocument.wordprocessingml.document'',
           ''application/msword'', ''text/plain''}
        \<and> \<not> list_ex (endsWith (toLowerCase (file_name file)))
               [''.pdf'', ''.docx'', ''.doc'', ''.txt'']
      \<longrightarrow> extractTextFromFile lib file =
            Inr \<lparr>result_text = [],
                  result_error = Some ''Unsupported file type. Please upload PDF, DOCX, or TXT.''\<rparr>"
    by (simp add: extractTextFromFile_def Let_def)
  have f: "(\<forall>error. extractTextFromPDF_body lib file = Inl error \<longrightarrow>
         extractTextFromPDF lib file =
           Inr \<lparr>result_text = [],
                 result_error = Some (catch_message error ''Failed to parse PDF'')\<rparr>)
   \<and> (\<forall>error. extractTextFromDOCX_body lib file = Inl error \<longrightarrow>
         extractTextFromDOCX lib file =
           Inr \<lparr>result_text = [],
                 result_error = Some (catch_message error ''Failed to parse DOCX'')\<rparr>)
   \<and> (\<forall>error. extractTextFromTXT_body file = Inl error \<longrightarrow>
         extractTextFromTXT file =
           Inr \<lparr>result_text = [],
                 result_error = Some (catch_message error ''Failed to parse TXT'')\<rparr>)"
    by (simp add: extractTextFromPDF_def extractTextFromDOCX_def extractTextFromTXT_def
          try_catch_failed)
  show ?thesis
    using pdf docx plain disp f m u by blast
qed

theorem extractors_total_witness:
  "extractTextFromFile strict_libraries broken_pdf =
     Inr \<lparr>result_text = [], result_error = Some ''Invalid PDF structure.''\<rparr>"
proof -
  have b: "extractTextFromPDF_body strict_libraries broken_pdf =
             Inl (ErrorInstance (new_Error ''Invalid PDF structure.''))"
    by (simp add: extractTextFromPDF_body_def strict_libraries_def broken_pdf_def)
  have "extractTextFromPDF strict_libraries broken_pdf =
          Inr \<lparr>result_text = [], result_error = Some ''Invalid PDF structure.''\<rparr>"
    using extractors_total [of strict_libraries broken_pdf] b by (simp add: new_Error_def)
  then show ?thesis by (simp add: extractTextFromFile_def Let_def) (simp add: broken_pdf_def)
qed

section \<open>Properties of the persisted row\<close>

lemma save_optimization_stores:
  assumes "uid \<noteq> []" and "supabaseUrl \<noteq> []" and "supabaseKey \<noteq> []"
  shows "save_optimization (Some uid) supabaseUrl supabaseKey jobDescription jobRole (JObj props) =
           Some \<lparr>user_id = uid, job_description = jobDescription, job_role = jobRole,
                 optimized_content = JObj props,
                 match_score = or_null (map_of props ''matchScore''),
                 template_name = ''modern''\<rparr>"
  using assms by (simp add: save_optimization_def)

text \<open>
  Claim C10. Whenever the handler hands a row to \<^verbatim>\<open>insert\<close>, its \<open>match_score\<close> is
  \<^verbatim>\<open>parsedCV.matchScore || null\<close>: \<^verbatim>\<open>null\<close> when \<open>matchScore\<close> is 0, absent or otherwise
  falsy, and the value itself when it is truthy.
\<close>

theorem stored_match_score:
  assumes "save_optimization userId supabaseUrl supabaseKey jobDescription jobRole parsedCV
             = Some row"
  shows "\<exists>ms. get_matchScore parsedCV = Inr ms
           \<and> match_score row = or_null ms
           \<and> (ms = Some (JNum 0) \<longrightarrow> match_score row = JNull)
           \<and> (ms = None \<longrightarrow> match_score row = JNull)
           \<and> (\<not> truthy ms \<longrightarrow> match_score row = JNull)
           \<and> (\<forall>v. ms = Some v \<and> truthy ms \<longrightarrow> match_score row = v)"
  using assms
  by (auto simp: save_optimization_def or_null_def split: option.splits if_splits sum.splits)

theorem stored_match_score_witness:
  "\<exists>row. save_optimization (Some ''user-1'') ''https://db'' ''key'' ''Go engineer''
            (Some ''Backend'') unscored_cv = Some row
     \<and> match_score row = JNull"
proof -
  have s: "save_optimization (Some ''user-1'') ''https://db'' ''key'' ''Go engineer''
             (Some ''Backend'') unscored_cv =
     Some \<lparr>user_id = ''user-1'', job_description = ''Go engineer'', job_role = Some ''Backend'',
           optimized_content = unscored_cv, match_score = JNull, template_name = ''modern''\<rparr>"
    by (simp add: save_optimization_def unscored_cv_def or_null_def)
  show ?thesis using stored_match_score [OF s] s by (auto simp: unscored_cv_def)
qed

section \<open>Properties of the response normalizer\<close>

text \<open>A greedy run returns the first alternative that matches, and only what one of them returns.\<close>

lemma greedy_ws_first: "rest (drop k s) = Some r \<Longrightarrow> greedy_ws k rest s = Some r"
  by (cases k) auto

lemma greedy_ws_result: "greedy_ws k rest s = Some r \<Longrightarrow> \<exists>j\<le>k. rest (drop j s) = Some r"
proof (induction k)
  case 0
  then show ?case by simp
next
  case (Suc k)
  show ?case
  proof (cases "rest (drop (Suc k) s)")
    case None
    with Suc.prems have "greedy_ws k rest s = Some r" by simp
    then obtain j where "j \<le> k" "rest (drop j s) = Some r" using Suc.IH by blast
    then show ?thesis using le_SucI by blast
  next
    case (Some a)
    with Suc.prems have "a = r" by simp
    with Some show ?thesis by blast
  qed
qed

lemma fence_not_ws: "startsWith s fence \<Longrightarrow> s \<noteq> [] \<and> \<not> is_ws (hd s)"
  by (cases s) (auto simp: fence_def is_ws_def)

lemma drop_ws_run: "drop (ws_run s) s = dropWhile is_ws s"
  by (simp add: ws_run_def dropWhile_eq_drop)

lemma closing_iff: "closing s \<noteq> None \<longleftrightarrow> startsWith (dropWhile is_ws s) fence"
proof
  assume "startsWith (dropWhile is_ws s) fence"
  then have "(\<lambda>r. if startsWith r fence then Some () else None) (drop (ws_run s) s) = Some ()"
    by (simp add: drop_ws_run)
  then have "closing s = Some ()" unfolding closing_def by (rule greedy_ws_first)
  then show "closing s \<noteq> None" by simp
next
  assume "closing s \<noteq> None"
  then have "greedy_ws (ws_run s) (\<lambda>r. if startsWith r fence then Some () else None) s = Some ()"
    by (simp add: closing_def)
  then obtain j where j: "j \<le> ws_run s" and st: "startsWith (drop j s) fence"
    using greedy_ws_result [of "ws_run s" "\<lambda>r. if startsWith r fence then Some () else None" s "()"]
    by (auto split: if_splits)
  have "j = ws_run s"
  proof (rule ccontr)
    assume "j \<noteq> ws_run s"
    then have lt: "j < length (takeWhile is_ws s)" using j by (simp add: ws_run_def)
    then have js: "j < length s" using length_takeWhile_le [of is_ws s] by simp
    have "is_ws (s ! j)" using lt
      by (metis nth_mem set_takeWhileD takeWhile_nth)
    moreover have "hd (drop j s) = s ! j" using js by (simp add: hd_drop_conv_nth)
    ultimately show False using fence_not_ws [OF st] by simp
  qed
  then show "startsWith (dropWhile is_ws s) fence" using st by (simp add: drop_ws_run)
qed

lemma lazy_capture_finds:
  assumes "\<And>c2. c2 \<noteq> [] \<Longrightarrow> suffix c2 c \<Longrightarrow> closing (c2 @ t) = None" and "closing t \<noteq> None"
  shows "lazy_capture acc (c @ t) = Some (acc @ c)"
  using assms
proof (induction c arbitrary: acc)
  case Nil
  then show ?case by (cases t) auto
next
  case (Cons x c)
  have "closing ((x # c) @ t) = None" using Cons.prems(1) [of "x # c"] by simp
  moreover have "lazy_capture (acc @ [x]) (c @ t) = Some ((acc @ [x]) @ c)"
  proof (rule Cons.IH)
    fix c2 assume "c2 \<noteq> []" "suffix c2 c"
    then show "closing (c2 @ t) = None" using Cons.prems(1) [of c2] by (simp add: suffix_Cons)
  qed (rule Cons.prems(2))
  ultimately show ?case by simp
qed

lemma startsWith_take: "startsWith s t \<longleftrightarrow> take (length t) s = t"
  by (induction s t rule: startsWith.induct) auto

lemma jsonMatch_no_fence: "\<not> str_includes s fence \<Longrightarrow> jsonMatch s = None"
  by (induction s) (auto simp: match_here_def fence_def)

lemma closing_Some_iff: "closing s = Some () \<longleftrightarrow> startsWith (dropWhile is_ws s) fence"
  using closing_iff [of s] by auto

lemma closing_None_iff: "closing s = None \<longleftrightarrow> \<not> startsWith (dropWhile is_ws s) fence"
  using closing_Some_iff [of s] by (cases "closing s") simp_all

lemma closing_none_inside:
  assumes nf: "\<not> str_includes J fence" and J: "J = front @ [z]" and z: "\<not> is_ws z" "z \<noteq> CHR 0x60"
    and c2: "c2 \<noteq> []" "suffix c2 J"
  shows "closing (c2 @ t) = None"
proof (rule ccontr)
  assume "closing (c2 @ t) \<noteq> None"
  then have st: "startsWith (dropWhile is_ws (c2 @ t)) fence" by (simp add: closing_Some_iff)
  have lz: "last c2 = z" using c2 J by (metis last_appendR last_snoc suffix_def)
  then have zin: "z \<in> set c2" using c2(1) last_in_set by metis
  define c3 where "c3 = dropWhile is_ws c2"
  have dw: "dropWhile is_ws (c2 @ t) = c3 @ t"
    unfolding c3_def using zin z(1) by (rule dropWhile_append1)
  have c3ne: "c3 \<noteq> []" unfolding c3_def using zin z(1) by (auto simp: dropWhile_eq_Nil_conv)
  have suf3: "suffix c3 c2" unfolding c3_def by (rule suffix_dropWhile)
  have l3: "last c3 = z" using suf3 c3ne lz by (auto simp: suffix_def)
  have tk: "take (length fence) (c3 @ t) = fence" using st dw by (simp add: startsWith_take)
  show False
  proof (cases "length fence \<le> length c3")
    case True
    then have "take (length fence) c3 = fence" using tk by simp
    then have "c3 = fence @ drop (length fence) c3" by (metis append_take_drop_id)
    moreover obtain p where "J = p @ c3" using suf3 c2(2) by (meson suffix_def suffix_order.trans)
    ultimately have "J = p @ fence @ drop (length fence) c3" by simp
    then show False using nf by (auto simp: str_includes_iff)
  next
    case False
    then have "take (length c3) (take (length fence) (c3 @ t)) = c3" by (simp add: min_def)
    moreover have "take (length c3) fence = take (length c3) (take (length fence) (c3 @ t))"
      by (simp only: tk)
    ultimately have "c3 = take (length c3) fence" by (simp only:)
    then have "set c3 \<subseteq> set fence" by (metis set_take_subset)
    then have "z \<in> set fence" using l3 c3ne last_in_set by blast
    then show False using z(2) by (simp add: fence_def)
  qed
qed

lemma closing_ws_fence:
  assumes "\<forall>c \<in> set w. is_ws c"
  shows "closing (w @ fence @ post) \<noteq> None"
proof -
  have "dropWhile is_ws (w @ fence @ post) = fence @ post"
    using assms by (simp add: dropWhile_append2 fence_def is_ws_def)
  then show ?thesis by (simp add: closing_Some_iff startsWith_prefix)
qed

lemma after_tag_object:
  assumes w: "\<forall>c \<in> set ws1. is_ws c" "\<forall>c \<in> set ws2. is_ws c"
    and nf: "\<not> str_includes (''{'' @ body @ ''}'') fence"
  shows "after_tag (ws1 @ ''{'' @ body @ ''}'' @ ws2 @ fence @ post) = Some (''{'' @ body @ ''}'')"
proof -
  let ?J = "''{'' @ body @ ''}''" and ?t = "ws2 @ fence @ post"
  let ?s = "ws1 @ ''{'' @ body @ ''}'' @ ws2 @ fence @ post"
  have run: "ws_run ?s = length ws1"
    using w(1) by (simp add: ws_run_def takeWhile_append2 is_ws_def)
  have "lazy_capture [] (?J @ ?t) = Some ([] @ ?J)"
  proof (rule lazy_capture_finds)
    fix c2 assume "c2 \<noteq> []" "suffix c2 ?J"
    then show "closing (c2 @ ?t) = None"
      using closing_none_inside [OF nf, of "''{'' @ body" "CHR ''}''" c2 ?t]
      by (simp add: is_ws_def)
  qed (rule closing_ws_fence [OF w(2)])
  then have lc: "lazy_capture [] (drop (length ws1) ?s) = Some ?J"
    by (simp del: lazy_capture.simps)
  show ?thesis unfolding after_tag_def run using lc by (rule greedy_ws_first)
qed

lemma after_open_object:
  assumes tag: "tag = [] \<or> tag = ''json''"
    and w: "\<forall>c \<in> set ws1. is_ws c" "\<forall>c \<in> set ws2. is_ws c"
    and nf: "\<not> str_includes (''{'' @ body @ ''}'') fence"
  shows "after_open (tag @ ws1 @ ''{'' @ body @ ''}'' @ ws2 @ fence @ post) = Some (''{'' @ body @ ''}'')"
proof -
  note at = after_tag_object [OF w nf, of post]
  from tag show ?thesis
  proof
    assume t: "tag = []"
    have "\<not> startsWith (ws1 @ ''{'' @ body @ ''}'' @ ws2 @ fence @ post) ''json''"
      using w(1) by (cases ws1) (auto simp: is_ws_def)
    then show ?thesis using at t by (simp add: after_open_def del: startsWith.simps)
  next
    assume t: "tag = ''json''"
    show ?thesis using at by (simp add: after_open_def t)
  qed
qed

lemma startsWith_fence_early:
  assumes "startsWith (p # pre @ fence @ r) fence"
  shows "startsWith (p # pre @ ''``'') fence"
proof -
  have "take (length fence) (p # pre @ fence @ r) = fence"
    using assms by (simp only: startsWith_take)
  moreover have "p # pre @ fence @ r = (p # pre @ ''``'') @ (CHR 0x60 # r)"
    by (simp add: fence_def)
  moreover have "take (length fence) ((p # pre @ ''``'') @ (CHR 0x60 # r))
      = take (length fence) (p # pre @ ''``'')"
    by (subst take_append) (simp add: fence_def)
  ultimately have "take (length fence) (p # pre @ ''``'') = fence" by (simp only:)
  then show ?thesis by (simp only: startsWith_take)
qed

lemma jsonMatch_skips_prose:
  assumes "\<not> str_includes (pre @ ''``'') fence" and "after_open r = Some g"
  shows "jsonMatch (pre @ fence @ r) = Some g"
  using assms
proof (induction pre)
  case Nil
  then show ?case by (simp add: fence_def match_here_def)
next
  case (Cons p pre)
  have "\<not> startsWith (p # pre @ ''``'') fence" and rest: "\<not> str_includes (pre @ ''``'') fence"
    using Cons.prems(1) by simp_all
  then have "\<not> startsWith (p # pre @ fence @ r) fence" using startsWith_fence_early by blast
  then have "match_here ((p # pre) @ fence @ r) = None" by (simp add: match_here_def del: startsWith.simps)
  then show ?case using Cons.IH [OF rest Cons.prems(2)] by simp
qed

lemma jsonString_no_fence: "\<not> str_includes raw fence \<Longrightarrow> jsonString raw = raw"
  by (simp add: jsonString_def jsonMatch_no_fence)

lemma jsonString_fenced_object:
  assumes "\<not> str_includes (pre @ ''``'') fence" and "tag = [] \<or> tag = ''json''"
    and "\<forall>c \<in> set ws1. is_ws c" and "\<forall>c \<in> set ws2. is_ws c"
    and "\<not> str_includes (''{'' @ body @ ''}'') fence"
  shows "jsonString (pre @ fence @ tag @ ws1 @ ''{'' @ body @ ''}'' @ ws2 @ fence @ post) = ''{'' @ body @ ''}''"
  unfolding jsonString_def
  by (simp only: jsonMatch_skips_prose [OF assms(1) after_open_object [OF assms(2-5)]] option.case)

text \<open>
  Claim C7, as stated, does not hold for every JSON object: the lazy group ends at the
  first triple backtick after the opening one, also when it stands inside the object. A
  fenced object whose summary holds a triple backtick is cut there, and the cut text
  fails to parse, while the bare object, with its single triple backtick, is taken
  whole and parses.
\<close>

theorem normalizer_truncates_at_inner_fence:
  "jsonString fenced_backtick_reply = truncated_json
   \<and> jsonString backtick_json = backtick_json
   \<and> parseAIResponse summary_parse fenced_backtick_reply
       = Inl (new_Error ''Failed to parse AI response'')
   \<and> parseAIResponse summary_parse backtick_json
       = Inr (JObj [(''summary'', JStr ''Use ``` for code'')])"
  by code_simp

text \<open>
  Claim C7, amended. When the raw text holds no triple backtick, the candidate is the whole raw
  text. When the first triple backtick of the raw text opens a block, tagged
  \<^verbatim>\<open>json\<close> or not, whose interior is a JSON object text (from \<^verbatim>\<open>{\<close> to \<^verbatim>\<open>}\<close>, with no
  triple backtick inside) between optional white space, the candidate is that object
  text, whatever prose surrounds the block, and the result is the result for the bare
  object text. The candidate is handed to \<^verbatim>\<open>JSON.parse\<close>; raw text without a fence
  that \<^verbatim>\<open>JSON.parse\<close> rejects fails with the parse error.
\<close>

theorem normalizer_extracts_first_fence:
  fixes JSON_parse :: "string \<Rightarrow> 'v option"
  shows
  "(\<not> str_includes raw fence \<longrightarrow> jsonString raw = raw)
   \<and> (\<not> str_includes (pre @ ''``'') fence \<and> (tag = [] \<or> tag = ''json'')
        \<and> (\<forall>c \<in> set (ws1 @ ws2). is_ws c) \<and> \<not> str_includes (''{'' @ body @ ''}'') fence
      \<longrightarrow> jsonString (pre @ fence @ tag @ ws1 @ ''{'' @ body @ ''}'' @ ws2 @ fence @ post)
            = ''{'' @ body @ ''}''
        \<and> parseAIResponse JSON_parse
              (pre @ fence @ tag @ ws1 @ ''{'' @ body @ ''}'' @ ws2 @ fence @ post)
            = parseAIResponse JSON_parse (''{'' @ body @ ''}'')
        \<and> parseAIResponse JSON_parse (''{'' @ body @ ''}'')
            = (case JSON_parse (''{'' @ body @ ''}'') of
                 None \<Rightarrow> Inl (new_Error ''Failed to parse AI response'')
               | Some parsedCV \<Rightarrow> Inr parsedCV))
   \<and> (\<not> str_includes raw fence \<and> JSON_parse raw = None
      \<longrightarrow> parseAIResponse JSON_parse raw = Inl (new_Error ''Failed to parse AI response''))"
proof -
  have a: "\<not> str_includes raw fence \<longrightarrow> jsonString raw = raw"
    by (simp add: jsonString_no_fence)
  have c: "\<not> str_includes raw fence \<and> JSON_parse raw = None
      \<longrightarrow> parseAIResponse JSON_parse raw = Inl (new_Error ''Failed to parse AI response'')"
    by (simp add: parseAIResponse_def jsonString_no_fence)
  have b: "jsonString (pre @ fence @ tag @ ws1 @ ''{'' @ body @ ''}'' @ ws2 @ fence @ post)
            = ''{'' @ body @ ''}''
        \<and> parseAIResponse JSON_parse
              (pre @ fence @ tag @ ws1 @ ''{'' @ body @ ''}'' @ ws2 @ fence @ post)
            = parseAIResponse JSON_parse (''{'' @ body @ ''}'')
        \<and> parseAIResponse JSON_parse (''{'' @ body @ ''}'')
            = (case JSON_parse (''{'' @ body @ ''}'') of
                 None \<Rightarrow> Inl (new_Error ''Failed to parse AI response'')
               | Some parsedCV \<Rightarrow> Inr parsedCV)"
    if h: "\<not> str_includes (pre @ ''``'') fence" "tag = [] \<or> tag = ''json''"
        "\<forall>c \<in> set (ws1 @ ws2). is_ws c" "\<not> str_includes (''{'' @ body @ ''}'') fence"
  proof -
    have w: "\<forall>c \<in> set ws1. is_ws c" "\<forall>c \<in> set ws2. is_ws c" using h(3) by auto
    have 1: "jsonString (pre @ fence @ tag @ ws1 @ ''{'' @ body @ ''}'' @ ws2 @ fence @ post)
            = ''{'' @ body @ ''}''"
      by (rule jsonString_fenced_object [OF h(1,2) w h(4)])
    have 2: "jsonString (''{'' @ body @ ''}'') = ''{'' @ body @ ''}''"
      by (rule jsonString_no_fence [OF h(4)])
    show ?thesis
      unfolding parseAIResponse_def by (simp only: 1 2 simp_thms)
  qed
  show ?thesis using a b c by blast
qed

theorem normalizer_extracts_first_fence_witness:
  "jsonString fenced_reply = header_json
   \<and> parseAIResponse toy_parse fenced_reply = Inr (JObj [(''header'', JObj [])])
   \<and> parseAIResponse toy_parse fenced_reply = parseAIResponse toy_parse header_json
   \<and> parseAIResponse toy_parse ''Sorry, I cannot help with that.''
       = Inl (new_Error ''Failed to parse AI response'')"
proof -
  note t = normalizer_extracts_first_fence
             [where raw = "''Sorry, I cannot help with that.''"
                and pre = "''Here you go:'' @ [CHR 0x0A]" and tag = "''json''"
                and ?ws1.0 = "[CHR 0x0A]" and ?ws2.0 = "[CHR 0x0A]"
                and body = "[CHR 0x22] @ ''header'' @ [CHR 0x22] @ '':{}''" and post = "[]"
                and JSON_parse = toy_parse]
  have h1: "\<not> str_includes ''Sorry, I cannot help with that.'' fence"
    by (simp add: fence_def)
  have h2: "\<not> str_includes ((''Here you go:'' @ [CHR 0x0A]) @ ''``'') fence"
    by (simp add: fence_def)
  have h3: "\<forall>c \<in> set ([CHR 0x0A] @ [CHR 0x0A]). is_ws c"
    by (simp add: is_ws_def)
  have h4: "\<not> str_includes (''{'' @ ([CHR 0x22] @ ''header'' @ [CHR 0x22] @ '':{}'') @ ''}'') fence"
    by (simp add: fence_def)
  have h5: "toy_parse ''Sorry, I cannot help with that.'' = None"
    by (simp add: toy_parse_def header_json_def)
  have shape: "fenced_reply =
      (''Here you go:'' @ [CHR 0x0A]) @ fence @ ''json'' @ [CHR 0x0A]
        @ ''{'' @ ([CHR 0x22] @ ''header'' @ [CHR 0x22] @ '':{}'') @ ''}'' @ [CHR 0x0A] @ fence @ []"
    and obj: "header_json = ''{'' @ ([CHR 0x22] @ ''header'' @ [CHR 0x22] @ '':{}'') @ ''}''"
    by (simp_all add: fenced_reply_def header_json_def)
  have p: "toy_parse header_json = Some (JObj [(''header'', JObj [])])"
    by (simp add: toy_parse_def)
  from t h1 h2 h3 h4 h5 have
    "jsonString fenced_reply = header_json
     \<and> parseAIResponse toy_parse fenced_reply = parseAIResponse toy_parse header_json
     \<and> parseAIResponse toy_parse header_json
         = (case toy_parse header_json of
              None \<Rightarrow> Inl (new_Error ''Failed to parse AI response'')
            | Some parsedCV \<Rightarrow> Inr parsedCV)
     \<and> parseAIResponse toy_parse ''Sorry, I cannot help with that.''
         = Inl (new_Error ''Failed to parse AI response'')"
    unfolding shape obj by blast
  then show ?thesis by (simp add: p)
qed

section \<open>Properties of the PDF codec\<close>

text \<open>
  \<open>addText\<close> keeps the page-break policy: it starts a page whenever the cursor is past
  the bottom margin, so every line it draws lies within the page.
\<close>

lemma addText_line_within_page:
  assumes "margin \<le> pageHeight lib - 30"
  shows "\<exists>p. ops (addText_line lib fs l st) = ops st @ [p] \<and> within_page lib p"
  using assms
  by (simp add: addText_line_def doc_text_def addPage_def within_page_def Let_def)

lemma fold_addText_line_within_page:
  assumes "margin \<le> pageHeight lib - 30"
  shows "\<exists>new. ops (fold (addText_line lib fs) ls st) = ops st @ new
           \<and> list_all (within_page lib) new"
proof (induction ls arbitrary: st)
  case Nil
  show ?case by simp
next
  case (Cons l ls)
  obtain p where p: "ops (addText_line lib fs l st) = ops st @ [p]" "within_page lib p"
    using addText_line_within_page [OF assms] by blast
  obtain new where n: "ops (fold (addText_line lib fs) ls (addText_line lib fs l st))
      = ops (addText_line lib fs l st) @ new" "list_all (within_page lib) new"
    using Cons.IH by blast
  have "ops (fold (addText_line lib fs) (l # ls) st) = ops st @ (p # new)"
    using p(1) n(1) by simp
  moreover have "list_all (within_page lib) (p # new)" using p(2) n(2) by simp
  ultimately show ?case by blast
qed

lemma addText_within_page:
  assumes "margin \<le> pageHeight lib - 30"
  shows "\<exists>new. ops (addText lib t fs isBold st) = ops st @ new \<and> list_all (within_page lib) new"
  using fold_addText_line_within_page [OF assms, of fs
          "splitTextToSize lib fs isBold t (maxWidth lib)" "st\<lparr>fontSize := fs, bold := isBold\<rparr>"]
  by (simp add: addText_def Let_def)

lemma addText_line_breaks_page:
  "pages (addText_line lib fs l st) =
     (if yPosition st > pageHeight lib - 30 then pages st + 1 else pages st)"
  by (simp add: addText_line_def doc_text_def addPage_def Let_def)

text \<open>No step of the loop over the highlights starts a page.\<close>


lemma highlight_line_pages: "pages (highlight_line l st) = pages st"
  by (simp add: highlight_line_def doc_text_def Let_def)

lemma fold_highlight_line_pages: "pages (fold highlight_line ls st) = pages st"
  by (induction ls arbitrary: st) (simp_all add: highlight_line_pages)

lemma render_highlight_pages: "pages (render_highlight lib h st) = pages st"
  by (simp add: render_highlight_def Let_def fold_highlight_line_pages doc_text_def)

lemma fold_render_highlight_pages: "pages (fold (render_highlight lib) hs st) = pages st"
  by (induction hs arbitrary: st) (simp_all add: render_highlight_pages)

lemma nowrap_highlight:
  "render_highlight a4_nowrap h st =
     st\<lparr>fontSize := 10,
        ops := ops st @ [\<lparr>op_page = pages st, op_text = bullet @ '' '', op_x = 25, op_y = yPosition st,
                          op_fontSize = 10, op_bold = bold st\<rparr>,
                         \<lparr>op_page = pages st, op_text = h, op_x = 30, op_y = yPosition st,
                          op_fontSize = 10, op_bold = bold st\<rparr>],
        yPosition := yPosition st + 5\<rparr>"
  by (simp add: render_highlight_def highlight_line_def doc_text_def a4_nowrap_def margin_def Let_def)

lemma nowrap_highlights_y:
  "yPosition (fold (render_highlight a4_nowrap) hs st) = yPosition st + 5 * of_nat (length hs)"
  by (induction hs arbitrary: st) (simp_all add: nowrap_highlight algebra_simps)

lemma nowrap_highlights_last:
  "hs \<noteq> [] \<Longrightarrow> op_y (last (ops (fold (render_highlight a4_nowrap) hs st)))
     = yPosition st + 5 * of_nat (length hs - 1)"
proof (induction hs arbitrary: st)
  case Nil
  then show ?case by simp
next
  case (Cons h hs)
  show ?case
  proof (cases hs)
    case Nil
    then show ?thesis by (simp add: nowrap_highlight)
  next
    case (Cons a list)
    then have "hs \<noteq> []" by simp
    from Cons.IH [OF this, of "render_highlight a4_nowrap h st"]
    show ?thesis using Cons by (simp add: nowrap_highlight algebra_simps)
  qed
qed

lemma long_cv_render:
  "generatePDF a4_nowrap long_cv =
     (fold (render_highlight a4_nowrap) sixty_highlights before_highlights)
       \<lparr>yPosition :=
          yPosition (fold (render_highlight a4_nowrap) sixty_highlights before_highlights) + 5\<rparr>"
  by (simp add: generatePDF_def render_header_def render_summary_def render_skills_def
        render_experience_def render_education_def render_experience_entry_def
        addText_def addText_line_def addPage_def doc_text_def
        new_doc_def margin_def maxWidth_def present_text_def present_list_def the_list_def
        long_cv_def before_highlights_def Let_def a4_nowrap_def)

text \<open>
  Claim C2, on the code. A resume with one experience entry of sixty one-line highlights,
  on an A4 page: the loop over the highlights draws every line without the check that
  \<open>addText\<close> makes, so the document keeps its single page and the last highlight is
  drawn at height 344.4, below the bottom margin at 267 and below the page's end at 297.
\<close>

theorem generatePDF_highlights_overflow_page:
  "pages (generatePDF a4_nowrap long_cv) = 1
   \<and> op_y (last (ops (generatePDF a4_nowrap long_cv))) = 1722 / 5
   \<and> \<not> within_page a4_nowrap (last (ops (generatePDF a4_nowrap long_cv)))
   \<and> pageHeight a4_nowrap < op_y (last (ops (generatePDF a4_nowrap long_cv)))"
proof -
  have p: "pages (generatePDF a4_nowrap long_cv) = 1"
    by (simp add: long_cv_render fold_render_highlight_pages before_highlights_def)
  have ne: "sixty_highlights \<noteq> []" and len: "length sixty_highlights = 60"
    by (simp_all add: sixty_highlights_def)
  have y: "op_y (last (ops (generatePDF a4_nowrap long_cv))) = 1722 / 5"
    using nowrap_highlights_last [OF ne, of before_highlights]
    by (simp add: long_cv_render len before_highlights_def)
  show ?thesis using p y by (simp add: within_page_def a4_nowrap_def)
qed

text \<open>Which lines \<open>addText\<close> and the loops draw as a heading.\<close>


lemma addText_line_font:
  "fontSize (addText_line lib fs l st) = fontSize st" "bold (addText_line lib fs l st) = bold st"
  by (simp_all add: addText_line_def doc_text_def addPage_def Let_def)

lemma addText_line_ops:
  "\<exists>pg y. ops (addText_line lib fs l st) =
     ops st @ [\<lparr>op_page = pg, op_text = l, op_x = margin, op_y = y,
                 op_fontSize = fontSize st, op_bold = bold st\<rparr>]"
  by (simp add: addText_line_def doc_text_def addPage_def Let_def)

lemma fold_addText_line_no_heading:
  assumes "\<not> list_ex (pdf_heading h) (ops st)"
    and "fontSize st \<noteq> 14 \<or> \<not> bold st \<or> h \<notin> set ls"
  shows "\<not> list_ex (pdf_heading h) (ops (fold (addText_line lib fs) ls st))"
  using assms
proof (induction ls arbitrary: st)
  case Nil
  then show ?case by simp
next
  case (Cons l ls)
  obtain pg y where o: "ops (addText_line lib fs l st) =
     ops st @ [\<lparr>op_page = pg, op_text = l, op_x = margin, op_y = y,
                 op_fontSize = fontSize st, op_bold = bold st\<rparr>]"
    using addText_line_ops by blast
  have 1: "\<not> list_ex (pdf_heading h) (ops (addText_line lib fs l st))"
    using Cons.prems by (auto simp: o list_ex_iff pdf_heading_def)
  have 2: "fontSize (addText_line lib fs l st) \<noteq> 14 \<or> \<not> bold (addText_line lib fs l st) \<or> h \<notin> set ls"
    using Cons.prems(2) by (auto simp: addText_line_font)
  show ?case using Cons.IH [OF 1 2] by simp
qed

lemma addText_no_heading:
  assumes "lines_are_pieces lib" and "\<not> list_ex (pdf_heading h) (ops st)"
    and "fs \<noteq> 14 \<or> \<not> isBold \<or> \<not> str_includes t h"
  shows "\<not> list_ex (pdf_heading h) (ops (addText lib t fs isBold st))"
proof -
  have "fs \<noteq> 14 \<or> \<not> isBold \<or> h \<notin> set (splitTextToSize lib fs isBold t (maxWidth lib))"
    using assms(1,3) by (auto simp: lines_are_pieces_def)
  then have "\<not> list_ex (pdf_heading h)
     (ops (fold (addText_line lib fs) (splitTextToSize lib fs isBold t (maxWidth lib))
        (st\<lparr>fontSize := fs, bold := isBold\<rparr>)))"
    by (intro fold_addText_line_no_heading) (use assms(2) in auto)
  then show ?thesis by (simp add: addText_def Let_def)
qed

lemma fold_highlight_line_no_heading:
  assumes "\<not> list_ex (pdf_heading h) (ops st)" and "fontSize st \<noteq> 14"
  shows "\<not> list_ex (pdf_heading h) (ops (fold highlight_line ls st))"
  using assms
proof (induction ls arbitrary: st)
  case Nil
  then show ?case by simp
next
  case (Cons l ls)
  have 1: "\<not> list_ex (pdf_heading h) (ops (highlight_line l st))"
    using Cons.prems
    by (auto simp: highlight_line_def doc_text_def list_ex_iff pdf_heading_def Let_def)
  have 2: "fontSize (highlight_line l st) \<noteq> 14"
    using Cons.prems(2) by (simp add: highlight_line_def doc_text_def Let_def)
  show ?case using Cons.IH [OF 1 2] by simp
qed

lemma render_highlight_no_heading:
  assumes "\<not> list_ex (pdf_heading h) (ops st)"
  shows "\<not> list_ex (pdf_heading h) (ops (render_highlight lib x st))"
  unfolding render_highlight_def Let_def
  by (rule fold_highlight_line_no_heading) (use assms in \<open>auto simp: doc_text_def list_ex_iff pdf_heading_def\<close>)

lemma fold_render_highlight_no_heading:
  assumes "\<not> list_ex (pdf_heading h) (ops st)"
  shows "\<not> list_ex (pdf_heading h) (ops (fold (render_highlight lib) hs st))"
  using assms by (induction hs arbitrary: st) (simp_all add: render_highlight_no_heading)

lemma render_experience_entry_no_heading:
  assumes "lines_are_pieces lib" and "\<not> list_ex (pdf_heading h) (ops st)"
  shows "\<not> list_ex (pdf_heading h) (ops (render_experience_entry lib e st))"
  using assms
  by (simp add: render_experience_entry_def Let_def fold_render_highlight_no_heading addText_no_heading)

lemma fold_render_experience_entry_no_heading:
  assumes "lines_are_pieces lib" and "\<not> list_ex (pdf_heading h) (ops st)"
  shows "\<not> list_ex (pdf_heading h) (ops (fold (render_experience_entry lib) es st))"
  using assms(2)
  by (induction es arbitrary: st) (simp_all add: render_experience_entry_no_heading [OF assms(1)])

lemma render_education_entry_no_heading:
  assumes "lines_are_pieces lib" and "\<not> list_ex (pdf_heading h) (ops st)"
  shows "\<not> list_ex (pdf_heading h) (ops (render_education_entry lib e st))"
  using assms
  by (simp add: render_education_entry_def Let_def addText_no_heading)

lemma fold_render_education_entry_no_heading:
  assumes "lines_are_pieces lib" and "\<not> list_ex (pdf_heading h) (ops st)"
  shows "\<not> list_ex (pdf_heading h) (ops (fold (render_education_entry lib) es st))"
  using assms(2)
  by (induction es arbitrary: st) (simp_all add: render_education_entry_no_heading [OF assms(1)])

lemma key_skills_not_in_headings:
  "\<not> str_includes ''PROFESSIONAL SUMMARY'' ''KEY SKILLS''"
  "\<not> str_includes ''PROFESSIONAL EXPERIENCE'' ''KEY SKILLS''"
  "\<not> str_includes ''EDUCATION'' ''KEY SKILLS''"
  by simp_all

lemma generatePDF_no_skills_heading:
  assumes lib: "lines_are_pieces lib" and sk: "\<not> present_list (skills cvData)"
  shows "\<not> list_ex (pdf_heading ''KEY SKILLS'') (ops (generatePDF lib cvData))"
proof -
  let ?h = "''KEY SKILLS''"
  have 0: "\<not> list_ex (pdf_heading ?h) (ops new_doc)" by (simp add: new_doc_def)
  have 1: "\<not> list_ex (pdf_heading ?h) (ops (render_header lib cvData st))"
    if "\<not> list_ex (pdf_heading ?h) (ops st)" for st
    using that by (simp add: render_header_def Let_def addText_no_heading [OF lib] split: option.splits)
  have 2: "\<not> list_ex (pdf_heading ?h) (ops (render_summary lib cvData st))"
    if "\<not> list_ex (pdf_heading ?h) (ops st)" for st
    using that key_skills_not_in_headings
    by (simp add: render_summary_def Let_def addText_no_heading [OF lib] del: str_includes.simps)
  have 3: "render_skills lib cvData st = st" for st
    using sk by (simp add: render_skills_def)
  have 4: "\<not> list_ex (pdf_heading ?h) (ops (render_experience lib cvData st))"
    if "\<not> list_ex (pdf_heading ?h) (ops st)" for st
    using that key_skills_not_in_headings
    by (simp add: render_experience_def Let_def addText_no_heading [OF lib]
          fold_render_experience_entry_no_heading [OF lib] del: str_includes.simps)
  have 5: "\<not> list_ex (pdf_heading ?h) (ops (render_education lib cvData st))"
    if "\<not> list_ex (pdf_heading ?h) (ops st)" for st
    using that key_skills_not_in_headings
    by (simp add: render_education_def Let_def addText_no_heading [OF lib]
          fold_render_education_entry_no_heading [OF lib] del: str_includes.simps)
  show ?thesis
    unfolding generatePDF_def 3 by (intro 5 4 2 1 0)
qed

section \<open>Properties of the DOCX codec\<close>


lemma docx_heading_plain [simp]: "\<not> docx_heading h (plain_paragraph runs after)"
  by (simp add: docx_heading_def plain_paragraph_def)

lemma docx_heading_heading [simp]: "docx_heading h (heading_paragraph t) \<longleftrightarrow> t = h"
  by (auto simp: docx_heading_def heading_paragraph_def text_run_def)

lemma generateDOCX_no_skills_heading:
  assumes sk: "\<not> present_list (skills cvData)"
  shows "\<not> list_ex (docx_heading ''KEY SKILLS'') (generateDOCX cvData)"
  using sk
  by (auto simp: generateDOCX_def docx_header_def docx_summary_def docx_skills_def
        docx_experience_def docx_education_def docx_experience_entry_def docx_education_entry_def
        docx_highlight_def list_ex_iff docx_heading_def plain_paragraph_def heading_paragraph_def text_run_def
      split: option.splits)

lemma generateDOCX_skills_heading:
  assumes "present_list (skills cvData)"
  shows "list_ex (docx_heading ''KEY SKILLS'') (generateDOCX cvData)"
  using assms by (simp add: generateDOCX_def docx_skills_def)

lemma str_includes_self: "str_includes t t"
  by (simp add: str_includes_iff) (metis append_Nil append_Nil2)

lemma lines_are_pieces_nowrap: "lines_are_pieces a4_nowrap"
  by (simp add: lines_are_pieces_def a4_nowrap_def str_includes_self)

text \<open>
  Claim C8. For a resume whose \<open>skills\<close> is absent or the empty sequence, both codecs
  skip the skills section: the PDF codec leaves the document and the cursor as they
  are, the DOCX codec adds no paragraph, and neither output holds a ``KEY SKILLS''
  heading: no paragraph of heading style with that text in the DOCX, and no line drawn
  as a heading (14 point bold) with that text in the PDF, the lines of
  \<^verbatim>\<open>splitTextToSize\<close> being pieces of the text it wraps.
\<close>

theorem skills_section_skipped:
  assumes "skills cvData = None \<or> skills cvData = Some []"
  shows "render_skills lib cvData st = st
       \<and> docx_skills cvData = []
       \<and> \<not> list_ex (docx_heading ''KEY SKILLS'') (generateDOCX cvData)
       \<and> (lines_are_pieces lib
            \<longrightarrow> \<not> list_ex (pdf_heading ''KEY SKILLS'') (ops (generatePDF lib cvData)))"
proof -
  have sk: "\<not> present_list (skills cvData)"
    using assms by (auto simp: present_list_def)
  show ?thesis
    using sk generateDOCX_no_skills_heading [OF sk] generatePDF_no_skills_heading [OF _ sk]
    by (simp add: render_skills_def docx_skills_def)
qed

theorem skills_section_skipped_witness:
  "\<not> list_ex (pdf_heading ''KEY SKILLS'') (ops (generatePDF a4_nowrap no_skills_cv))
   \<and> \<not> list_ex (docx_heading ''KEY SKILLS'') (generateDOCX no_skills_cv)"
proof -
  have "skills no_skills_cv = None \<or> skills no_skills_cv = Some []"
    by (simp add: no_skills_cv_def)
  from skills_section_skipped [OF this, of a4_nowrap new_doc] lines_are_pieces_nowrap
  show ?thesis by simp
qed

end
